theory Spec2Isabelle
  imports Complex_Main "HOL-Library.Word" "HOL-Library.Sublist"
begin

section \<open>JavaScript strings\<close>

text \<open>
  A JavaScript string is a sequence of 16-bit code units. \<open>split\<close>, \<open>join\<close> and
  \<open>trim\<close> work on code units, so the embedding keeps them: the fullwidth bar of the
  third sentinel, the em dash of the task line and the Burmese fallback are single
  code units, the sun of the header is a surrogate pair.
\<close>

type_synonym jsstring = "16 word list"

definition lit :: "string \<Rightarrow> jsstring" where
  \<comment> \<open>An ASCII literal of the source, as code units.\<close>
  "lit s = map of_char s"

fun indexOf :: "jsstring \<Rightarrow> jsstring \<Rightarrow> nat option" where
  \<comment> \<open>StringIndexOf from position 0: the first place where the pattern starts.\<close>
  "indexOf t [] = (if t = [] then Some 0 else None)"
| "indexOf t (c # cs) =
     (if prefix t (c # cs) then Some 0 else map_option Suc (indexOf t cs))"

lemma indexOf_bound: "indexOf t s = Some j \<Longrightarrow> j + length t \<le> length s"
proof (induction s arbitrary: j)
  case Nil
  then show ?case by (simp split: if_splits)
next
  case (Cons c cs)
  show ?case
  proof (cases "prefix t (c # cs)")
    case True
    then have "length t \<le> length (c # cs)" by (rule prefix_length_le)
    with True Cons.prems show ?thesis by simp
  next
    case False
    with Cons.prems obtain k where "indexOf t cs = Some k" "j = Suc k" by auto
    with Cons.IH show ?thesis by simp
  qed
qed

function str_split :: "jsstring \<Rightarrow> jsstring \<Rightarrow> jsstring list" where
  \<comment> \<open>\<open>s.split(sep)\<close> without a limit: an empty separator cuts between code units;
      otherwise the pieces between the successive leftmost occurrences.\<close>
  "str_split sep s =
     (if sep = [] then map (\<lambda>c. [c]) s
      else case indexOf sep s of
        None \<Rightarrow> [s]
      | Some j \<Rightarrow> take j s # str_split sep (drop (j + length sep) s))"
  by pat_completeness auto
termination
proof (relation "measure (\<lambda>(sep, s). length s)")
  show "wf (measure (\<lambda>(sep, s). length s))" by simp
next
  fix sep s :: jsstring and j
  assume "sep \<noteq> []" "indexOf sep s = Some j"
  then have "j + length sep \<le> length s" "0 < length sep"
    by (simp_all add: indexOf_bound)
  then have "length s - (j + length sep) < length s" by arith
  then show "((sep, drop (j + length sep) s), (sep, s)) \<in> measure (\<lambda>(sep, s). length s)"
    by simp
qed

declare str_split.simps [simp del]

fun arr_join :: "jsstring \<Rightarrow> jsstring list \<Rightarrow> jsstring" where
  \<comment> \<open>\<open>parts.join(sep)\<close> on an array of strings.\<close>
  "arr_join sep [] = []"
| "arr_join sep [p] = p"
| "arr_join sep (p # q # ps) = p @ sep @ arr_join sep (q # ps)"

definition isWhiteSpace :: "16 word \<Rightarrow> bool" where
  \<comment> \<open>WhiteSpace and LineTerminator of ECMAScript, all in the basic plane.\<close>
  "isWhiteSpace c \<longleftrightarrow>
     c \<in> {0x09, 0x0A, 0x0B, 0x0C, 0x0D, 0x20, 0xA0, 0x1680,
          0x2028, 0x2029, 0x202F, 0x205F, 0x3000, 0xFEFF}
     \<or> (0x2000 \<le> c \<and> c \<le> 0x200A)"

definition str_trim :: "jsstring \<Rightarrow> jsstring" where
  "str_trim s = rev (dropWhile isWhiteSpace (rev (dropWhile isWhiteSpace s)))"

section \<open>Sanitising the generated text\<close>

definition tokens :: "jsstring list" where
  \<comment> \<open>The sentinel list of generateQuote, in the source's order.\<close>
  "tokens =
    [lit ''<|begin_of_text|>'',
     lit ''<|end_of_text|>'',
     [0x3C, 0xFF5C] @ lit ''begin'' @ [0x2581] @ lit ''of'' @ [0x2581] @ lit ''sentence''
       @ [0xFF5C, 0x3E],
     lit ''<s>'',
     lit ''</s>'',
     lit ''<BOS>'',
     lit ''<EOS>'',
     lit ''<|im_start|>'',
     lit ''<|im_end|>'']"

definition strip_token :: "jsstring \<Rightarrow> jsstring \<Rightarrow> jsstring" where
  \<comment> \<open>One round of the loop: \<open>cleaned = cleaned.split(t).join('')\<close>.\<close>
  "strip_token t s = arr_join [] (str_split t s)"

definition cleaned :: "jsstring \<Rightarrow> jsstring" where
  \<comment> \<open>\<open>for (const t of tokens) ...; return cleaned.trim()\<close>.\<close>
  "cleaned raw = str_trim (fold strip_token tokens raw)"

function remove_substring :: "jsstring \<Rightarrow> jsstring \<Rightarrow> jsstring" where
  \<comment> \<open>The specification's words, "literal substring removal": scan from the left and
      drop each occurrence met. Compared with \<open>strip_token\<close> below.\<close>
  "remove_substring t s =
     (if t = [] \<or> s = [] then s
      else if prefix t s then remove_substring t (drop (length t) s)
      else hd s # remove_substring t (tl s))"
  by pat_completeness auto
termination
  by (relation "measure (\<lambda>(t, s). length s)") auto

declare remove_substring.simps [simp del]


section \<open>Values, exceptions and parsed JSON\<close>

datatype exn = TypeError | SyntaxError | FetchFailed | DiscordAPIError
  \<comment> \<open>What a \<open>throw\<close> or a rejected promise carries. \<open>Inl\<close> of a result is a raise.\<close>

datatype json =
    JNull
  | JBool bool
  | JNum bool jsstring
  | JStr jsstring
  | JArr "json list"
  | JObj "(jsstring \<times> json) list"

text \<open>
  A number of a parsed body is a binary64 value. The program looks at it in two ways
  only: ToBoolean (in \<open>||\<close>) and ToString (in a template literal). \<open>JNum\<close> carries
  these two results, whether the number is truthy and its text, so floating point is not
  modelled and nothing is assumed about either. An object is the list of its own
  properties, read with \<open>map_of\<close>. A property read yields \<open>json option\<close>:
  \<open>None\<close> is \<open>undefined\<close>.
\<close>

fun getProp :: "jsstring \<Rightarrow> json \<Rightarrow> json option" where
  \<comment> \<open>\<open>v.key\<close> on a value that is neither null nor undefined, for the keys of this
      program (tasks, name, status, choices, message, content, error), which no
      prototype defines: own properties of objects only.\<close>
  "getProp k (JObj kvs) = map_of kvs k"
| "getProp k v = None"

fun getFirst :: "json \<Rightarrow> json option" where
  \<comment> \<open>\<open>v[0]\<close> on a value that is neither null nor undefined.\<close>
  "getFirst (JArr xs) = (case xs of [] \<Rightarrow> None | x # _ \<Rightarrow> Some x)"
| "getFirst (JStr s) = (case s of [] \<Rightarrow> None | c # _ \<Rightarrow> Some (JStr [c]))"
| "getFirst (JObj kvs) = map_of kvs (lit ''0'')"
| "getFirst v = None"

definition optChain :: "(json \<Rightarrow> json option) \<Rightarrow> json option \<Rightarrow> json option" where
  \<comment> \<open>\<open>v?.p\<close>: undefined when v is null or undefined.\<close>
  "optChain f v = (case v of None \<Rightarrow> None | Some JNull \<Rightarrow> None | Some x \<Rightarrow> f x)"

fun truthy :: "json \<Rightarrow> bool" where
  "truthy JNull = False"
| "truthy (JBool b) = b"
| "truthy (JNum nonzero text) = nonzero"
| "truthy (JStr s) = (s \<noteq> [])"
| "truthy (JArr xs) = True"
| "truthy (JObj kvs) = True"

definition orElse :: "json option \<Rightarrow> json \<Rightarrow> json" where
  \<comment> \<open>\<open>v || d\<close>.\<close>
  "orElse v d = (case v of None \<Rightarrow> d | Some x \<Rightarrow> if truthy x then x else d)"

fun collect :: "(exn + 'a) list \<Rightarrow> exn + 'a list" where
  \<comment> \<open>Results computed left to right: the first raise ends the computation.\<close>
  "collect [] = Inr []"
| "collect (Inl x # rs) = Inl x"
| "collect (Inr v # rs) = (case collect rs of Inl x \<Rightarrow> Inl x | Inr vs \<Rightarrow> Inr (v # vs))"

fun toString :: "json \<Rightarrow> exn + jsstring" where
  \<comment> \<open>ToString of a template literal. An array joins its elements with a comma, null
      as the empty string. An object prints as [object Object] unless it has an own
      property toString, which parsed JSON cannot make callable: then ToPrimitive
      finds no primitive and throws a TypeError.\<close>
  "toString JNull = Inr (lit ''null'')"
| "toString (JBool b) = Inr (if b then lit ''true'' else lit ''false'')"
| "toString (JNum nonzero text) = Inr text"
| "toString (JStr s) = Inr s"
| "toString (JArr xs) =
     (case collect (map (\<lambda>x. if x = JNull then Inr [] else toString x) xs) of
        Inl e \<Rightarrow> Inl e
      | Inr ps \<Rightarrow> Inr (arr_join (lit '','') ps))"
| "toString (JObj kvs) =
     (if map_of kvs (lit ''toString'') = None then Inr (lit ''[object Object]'')
      else Inl TypeError)"

function decimal :: "nat \<Rightarrow> jsstring" where
  \<comment> \<open>ToString of a non-negative integer below 10^21.\<close>
  "decimal n =
     (if n < 10 then [of_nat (48 + n)] else decimal (n div 10) @ [of_nat (48 + n mod 10)])"
  by pat_completeness auto
termination
  by (relation "measure id") auto

declare decimal.simps [simp del]

definition decimal_int :: "int \<Rightarrow> jsstring" where
  "decimal_int i = (if i < 0 then 0x2D # decimal (nat (- i)) else decimal (nat i))"


section \<open>Numbers read from the environment\<close>

datatype jsnum = NaN | Fin rat | PosInfinity | NegInfinity
  \<comment> \<open>A Number value. \<open>Fin\<close> carries the exact value of a finite binary64 number;
      the zero of either sign is \<open>Fin 0\<close>, and both are falsy.\<close>

function bitLength :: "nat \<Rightarrow> nat" where
  \<comment> \<open>The number of binary digits of a natural number.\<close>
  "bitLength n = (if n = 0 then 0 else Suc (bitLength (n div 2)))"
  by pat_completeness auto
termination
  by (relation "measure id") auto

declare bitLength.simps [simp del]

definition pow2 :: "int \<Rightarrow> rat" where
  "pow2 k = (if 0 \<le> k then 2 ^ nat k else 1 / 2 ^ nat (- k))"

definition floorLog2 :: "nat \<Rightarrow> nat \<Rightarrow> int" where
  \<comment> \<open>The integer part of the binary logarithm of n / d, both positive: with k the
      difference of the lengths, the quotient lies between 2^(k-1) and 2^(k+1).\<close>
  "floorLog2 n d =
     (let k = int (bitLength n) - int (bitLength d)
      in if (if 0 \<le> k then 2 ^ nat k * d \<le> n else d \<le> 2 ^ nat (- k) * n) then k else k - 1)"

definition roundHalfEven :: "nat \<Rightarrow> nat \<Rightarrow> nat" where
  \<comment> \<open>The integer nearest to n / d, the even one of two equally near.\<close>
  "roundHalfEven n d =
     (let q = n div d; r = n mod d
      in if 2 * r < d then q
         else if d < 2 * r then q + 1
         else if even q then q else q + 1)"

definition binary64 :: "nat \<Rightarrow> nat \<Rightarrow> jsnum" where
  \<comment> \<open>The Number value for the mathematical value n / d (d positive): the nearest
      binary64 number, ties to the even significand. The significand m has 53 bits, the
      exponent e of its last bit is at least -1074, and what rounds to 2^1024 or more is
      infinite.\<close>
  "binary64 n d =
     (if n = 0 then Fin 0
      else
        let e = max (- 1074) (floorLog2 n d - 52);
            m = (if 0 \<le> e then roundHalfEven n (d * 2 ^ nat e)
                 else roundHalfEven (n * 2 ^ nat (- e)) d);
            v = of_nat m * pow2 e
        in if 2 ^ 1024 \<le> v then PosInfinity else Fin v)"

definition isDigit :: "16 word \<Rightarrow> bool" where
  "isDigit c \<longleftrightarrow> 0x30 \<le> c \<and> c \<le> 0x39"

definition digitValue :: "16 word \<Rightarrow> nat option" where
  \<comment> \<open>The value of a digit in a literal of radix up to 16.\<close>
  "digitValue c =
     (if 0x30 \<le> c \<and> c \<le> 0x39 then Some (unat c - 48)
      else if 0x61 \<le> c \<and> c \<le> 0x66 then Some (unat c - 87)
      else if 0x41 \<le> c \<and> c \<le> 0x46 then Some (unat c - 55)
      else None)"

definition digitsValue :: "nat \<Rightarrow> jsstring \<Rightarrow> nat option" where
  \<comment> \<open>A non-empty run of digits of the radix, and nothing else.\<close>
  "digitsValue radix ds =
     (if ds \<noteq> [] \<and> list_all (\<lambda>c. case digitValue c of None \<Rightarrow> False | Some d \<Rightarrow> d < radix) ds
      then Some (foldl (\<lambda>n c. radix * n + (case digitValue c of None \<Rightarrow> 0 | Some d \<Rightarrow> d)) 0 ds)
      else None)"

definition exponentPart :: "jsstring \<Rightarrow> int option" where
  \<comment> \<open>Nothing, or e or E, an optional sign, digits.\<close>
  "exponentPart s =
     (case s of
        [] \<Rightarrow> Some 0
      | c # r \<Rightarrow>
          if c = 0x65 \<or> c = 0x45 then
            (case r of
               [] \<Rightarrow> None
             | x # r' \<Rightarrow>
                 if x = 0x2D then map_option (\<lambda>n. - int n) (digitsValue 10 r')
                 else if x = 0x2B then map_option int (digitsValue 10 r')
                 else map_option int (digitsValue 10 r))
          else None)"

definition scaled10 :: "nat \<Rightarrow> int \<Rightarrow> jsnum" where
  \<comment> \<open>The Number value for m times ten to the power k.\<close>
  "scaled10 m k = (if 0 \<le> k then binary64 (m * 10 ^ nat k) 1 else binary64 m (10 ^ nat (- k)))"

definition unsignedDecimal :: "jsstring \<Rightarrow> jsnum" where
  \<comment> \<open>StrUnsignedDecimalLiteral: Infinity, or digits with an optional fraction and
      exponent, with a digit on at least one side of the point. Its value is rounded
      once, from the exact decimal value, as Node's engine does for any number of
      digits.\<close>
  "unsignedDecimal s =
     (if s = lit ''Infinity'' then PosInfinity
      else
        let ip = takeWhile isDigit s;
            r1 = dropWhile isDigit s;
            dot = (r1 \<noteq> [] \<and> hd r1 = 0x2E);
            fp = (if dot then takeWhile isDigit (tl r1) else []);
            r2 = (if dot then dropWhile isDigit (tl r1) else r1)
        in if ip = [] \<and> fp = [] then NaN
           else case (digitsValue 10 (ip @ fp), exponentPart r2) of
                  (Some m, Some k) \<Rightarrow> scaled10 m (k - int (length fp))
                | _ \<Rightarrow> NaN)"

definition negated :: "jsnum \<Rightarrow> jsnum" where
  "negated n =
     (case n of NaN \<Rightarrow> NaN | Fin r \<Rightarrow> Fin (- r)
      | PosInfinity \<Rightarrow> NegInfinity | NegInfinity \<Rightarrow> PosInfinity)"

definition radixLiteral :: "nat \<Rightarrow> jsstring \<Rightarrow> jsnum" where
  "radixLiteral radix ds = (case digitsValue radix ds of None \<Rightarrow> NaN | Some n \<Rightarrow> binary64 n 1)"

definition Number_of :: "jsstring \<Rightarrow> jsnum" where
  \<comment> \<open>\<open>Number(text)\<close>, StringToNumber: white space trimmed, the empty text is zero,
      then a hexadecimal, octal or binary integer without sign or a signed decimal
      literal, rounded to binary64; anything else is NaN.\<close>
  "Number_of text =
     (let t = str_trim text in
      if t = [] then Fin 0
      else if prefix (lit ''0x'') t \<or> prefix (lit ''0X'') t then radixLiteral 16 (drop 2 t)
      else if prefix (lit ''0o'') t \<or> prefix (lit ''0O'') t then radixLiteral 8 (drop 2 t)
      else if prefix (lit ''0b'') t \<or> prefix (lit ''0B'') t then radixLiteral 2 (drop 2 t)
      else if hd t = 0x2D then negated (unsignedDecimal (tl t))
      else if hd t = 0x2B then unsignedDecimal (tl t)
      else unsignedDecimal t)"

definition numOr :: "jsnum \<Rightarrow> jsnum \<Rightarrow> jsnum" where
  \<comment> \<open>\<open>n || d\<close> on numbers: NaN and zero are falsy.\<close>
  "numOr n d = (if n = NaN \<or> n = Fin 0 then d else n)"

definition literal_0_8 :: jsnum where
  \<comment> \<open>The literal 0.8 of the source: the binary64 number nearest to 4 / 5.\<close>
  "literal_0_8 = binary64 4 5"

section \<open>The environment and the outside world\<close>

record process_env =
  env_DISCORD_CHANNEL_ID :: "jsstring option"
  env_AI_MODEL :: "jsstring option"
  env_AI_API_URL :: "jsstring option"
  env_AI_API_KEY :: "jsstring option"
  env_LANGUAGE :: "jsstring option"
  env_DISCORD_WEBHOOK_URL :: "jsstring option"
  env_AI_MAX_TOKENS :: "jsstring option"
  env_AI_TEMPERATURE :: "jsstring option"
  env_CLICKUP_TOKEN :: "jsstring option"
  env_CLICKUP_TEAM_ID :: "jsstring option"

text \<open>
  \<open>process.env\<close>: a variable is a string or is unset (\<open>None\<close>). The variables that
  only feed the scheduler and the login are left out.
\<close>

definition strOr :: "jsstring option \<Rightarrow> jsstring \<Rightarrow> jsstring" where
  \<comment> \<open>\<open>v || d\<close> on an environment variable: unset and empty are falsy.\<close>
  "strOr v d = (case v of None \<Rightarrow> d | Some s \<Rightarrow> if s = [] then d else s)"

definition isSet :: "jsstring option \<Rightarrow> bool" where
  \<comment> \<open>Truthiness of an environment variable.\<close>
  "isSet v = (case v of None \<Rightarrow> False | Some s \<Rightarrow> s \<noteq> [])"

definition LANGUAGE :: "process_env \<Rightarrow> jsstring" where
  \<comment> \<open>\<open>LANGUAGE = 'EN_MM'\<close> in the destructuring: the default stands in for an unset
      variable only.\<close>
  "LANGUAGE e = (case env_LANGUAGE e of None \<Rightarrow> lit ''EN_MM'' | Some v \<Rightarrow> v)"

definition USE_WEBHOOK :: "process_env \<Rightarrow> bool" where
  "USE_WEBHOOK e = isSet (env_DISCORD_WEBHOOK_URL e)"

datatype parsed = Malformed | Parsed json
  \<comment> \<open>What \<open>res.json()\<close> finds: a body that does not parse, or the parsed value.\<close>

record response =
  status :: nat
  payload :: parsed

definition ok :: "response \<Rightarrow> bool" where
  \<comment> \<open>\<open>res.ok\<close> of the Fetch standard.\<close>
  "ok res \<longleftrightarrow> 200 \<le> status res \<and> status res \<le> 299"

datatype ChannelType =
    GuildText | DM | GuildVoice | GroupDM | GuildCategory | GuildAnnouncement
  | AnnouncementThread | PublicThread | PrivateThread | GuildStageVoice
  | GuildDirectory | GuildForum | GuildMedia

record world =
  date_now :: int
  clickup_reply :: "exn + response"
  generation_reply :: "nat \<Rightarrow> exn + response"
  webhook_reply :: "exn + response"
  channel_reply :: "exn + ChannelType option"
  send_reply :: "exn option"

text \<open>
  How the collaborators answer during one run, each call being awaited: \<open>Inl\<close> is a
  rejected promise. \<open>generation_reply w i\<close> answers the generation call of attempt
  \<open>i\<close>; \<open>channel_reply\<close> is \<open>client.channels.fetch\<close>, resolving to null
  (\<open>None\<close>) or to a channel of some type; \<open>send_reply\<close> is \<open>channel.send\<close>.
\<close>

record chat_request =
  endpoint :: jsstring
  authorization :: jsstring
  model :: jsstring
  content :: jsstring
  temperature :: jsnum
  max_tokens :: jsnum

datatype level = Info | Warn | Error

datatype logged = Thrown exn | Value json

datatype event =
    ClickUpGet jsstring jsstring
  | GenerationPost chat_request
  | Delay nat
  | WebhookPost jsstring json
  | ChannelFetch "jsstring option"
  | ChannelSend jsstring
  | Console level jsstring "logged option"

text \<open>
  A run leaves a trace of its calls to the outside, in order. Every function below takes
  the trace so far and returns it extended, with its result: \<open>Inl\<close> when it throws.
\<close>


section \<open>The prompt\<close>

definition prompt_head :: jsstring where
  "prompt_head =
     lit ''\<newline>You are a friendly CTO sending a single short motivational quote to a small dev team shipping products in Myanmar.\<newline>''"

definition prompt_tail :: jsstring where
  "prompt_tail =
     lit ''Requirements:\<newline>- 1'' @ [0x2013] @ lit ''2 sentences MAX, punchy.\<newline>''
     @ lit ''- Focus on engineering momentum, code quality, learning, teamwork, shipping.\<newline>''
     @ lit ''- Avoid clich'' @ [0xE9] @ lit ''s; be concrete.\<newline>''
     @ lit ''- If LANGUAGE=EN -> English only.\<newline>''
     @ lit ''- If LANGUAGE=MM -> Myanmar (Burmese) only.\<newline>''
     @ lit ''- If LANGUAGE=EN_MM -> Give English line then Myanmar line on the next line.\<newline>''
     @ lit ''\<newline>Return ONLY the quote text. No extra commentary.''"

definition buildPrompt :: "jsstring list \<Rightarrow> jsstring" where
  "buildPrompt contextLines =
     (let ctx = (if contextLines \<noteq> []
                 then lit ''Context:\<newline>- '' @ arr_join (lit ''\<newline>- '') contextLines
                      @ lit ''\<newline>''
                 else [])
      in prompt_head @ ctx @ prompt_tail)"

section \<open>generateQuote\<close>

definition maxTokens :: "process_env \<Rightarrow> jsnum" where
  \<comment> \<open>\<open>Number(AI_MAX_TOKENS ?? '') || 120\<close>\<close>
  "maxTokens e =
     numOr (Number_of (case env_AI_MAX_TOKENS e of None \<Rightarrow> [] | Some v \<Rightarrow> v)) (Fin 120)"

definition temperature_of :: "process_env \<Rightarrow> jsnum" where
  \<comment> \<open>\<open>Number(AI_TEMPERATURE ?? '') || 0.8\<close>\<close>
  "temperature_of e =
     numOr (Number_of (case env_AI_TEMPERATURE e of None \<Rightarrow> [] | Some v \<Rightarrow> v)) literal_0_8"

definition request :: "process_env \<Rightarrow> jsstring \<Rightarrow> chat_request" where
  \<comment> \<open>The arguments of the \<open>fetch\<close> of the loop, fixed before it starts. An unset key
      prints as undefined in the header.\<close>
  "request e prompt =
     \<lparr> endpoint = strOr (env_AI_API_URL e) (lit ''https://openrouter.ai/api/v1/chat/completions''),
       authorization =
         lit ''Bearer '' @ (case env_AI_API_KEY e of None \<Rightarrow> lit ''undefined'' | Some k \<Rightarrow> k),
       model = strOr (env_AI_MODEL e) (lit ''qwen/qwen3-coder:free''),
       content = prompt,
       temperature = temperature_of e,
       max_tokens = maxTokens e \<rparr>"

definition choiceContent :: "json \<Rightarrow> json option" where
  \<comment> \<open>\<open>data?.choices?.[0]?.message?.content\<close>\<close>
  "choiceContent data =
     optChain (getProp (lit ''content''))
       (optChain (getProp (lit ''message''))
         (optChain getFirst
           (optChain (getProp (lit ''choices'')) (Some data))))"

definition errorMessage :: "json \<Rightarrow> json option" where
  \<comment> \<open>\<open>data?.error?.message\<close>\<close>
  "errorMessage data =
     optChain (getProp (lit ''message'')) (optChain (getProp (lit ''error'')) (Some data))"

definition parsedOrNull :: "response \<Rightarrow> json" where
  \<comment> \<open>\<open>await res.json().catch(() => null)\<close>\<close>
  "parsedOrNull res = (case payload res of Malformed \<Rightarrow> JNull | Parsed j \<Rightarrow> j)"

function generateQuote_loop ::
  "process_env \<Rightarrow> world \<Rightarrow> jsstring \<Rightarrow> json \<Rightarrow> nat \<Rightarrow> event list
   \<Rightarrow> event list \<times> (exn + jsstring option)" where
  \<comment> \<open>The \<open>for\<close> loop of generateQuote from \<open>attempt\<close> on, and the two lines after
      it. A value that is not a string has no \<open>split\<close>: the call throws a TypeError.\<close>
  "generateQuote_loop e w prompt lastErr attempt tr =
     (if attempt < 3 then
        (let tr1 = tr @ [GenerationPost (request e prompt)] in
         case generation_reply w attempt of
           Inl x \<Rightarrow> (tr1, Inl x)
         | Inr res \<Rightarrow>
             (let data = parsedOrNull res in
              if ok res then
                (case orElse (choiceContent data) (JStr []) of
                   JStr raw \<Rightarrow> (tr1, Inr (Some (cleaned raw)))
                 | _ \<Rightarrow> (tr1, Inl TypeError))
              else
                (let lastErr' = orElse (errorMessage data) (JStr (lit ''HTTP '' @ decimal (status res))) in
                 if status res = 429 then
                   (let waitMs = 600 * (attempt + 1) in
                    generateQuote_loop e w prompt lastErr' (attempt + 1)
                      (tr1 @ [Console Warn
                                (lit ''Rate limited (429). Retrying in '' @ decimal waitMs
                                 @ lit ''ms...'') None,
                              Delay waitMs]))
                 else (tr1 @ [Console Error (lit ''OpenAI error:'') (Some (Value lastErr'))],
                       Inr None))))
      else (tr @ [Console Error (lit ''OpenAI error after retries:'') (Some (Value lastErr))],
            Inr None))"
  by pat_completeness auto
termination
  by (relation "measure (\<lambda>(e, w, prompt, lastErr, attempt, tr). 3 - attempt)") auto

declare generateQuote_loop.simps [simp del]

definition generateQuote ::
  "process_env \<Rightarrow> world \<Rightarrow> jsstring list \<Rightarrow> event list
   \<Rightarrow> event list \<times> (exn + jsstring option)" where
  \<comment> \<open>The result is the quote, or null (\<open>None\<close>). Whatever the \<open>try\<close> block throws
      is caught, logged and turned into null.\<close>
  "generateQuote e w contextLines tr =
     (let prompt = buildPrompt contextLines in
      case generateQuote_loop e w prompt (JStr []) 0 tr of
        (tr', Inl x) \<Rightarrow> (tr' @ [Console Error (lit ''AI error:'') (Some (Thrown x))], Inr None)
      | (tr', Inr v) \<Rightarrow> (tr', Inr v))"

section \<open>fetchClickUpContext\<close>

definition taskLine :: "json \<Rightarrow> exn + jsstring" where
  \<comment> \<open>The callback of \<open>tasks.map\<close>. Reading a property of null throws; the template
      converts title and status with ToString, title first.\<close>
  "taskLine t =
     (if t = JNull then Inl TypeError
      else
        let title = orElse (getProp (lit ''name'') t) (JStr (lit ''Untitled''));
            status = orElse (optChain (getProp (lit ''status'')) (getProp (lit ''status'') t))
                       (JStr (lit ''unknown''))
        in case toString title of
             Inl x \<Rightarrow> Inl x
           | Inr ts \<Rightarrow>
               (case toString status of
                  Inl x \<Rightarrow> Inl x
                | Inr ss \<Rightarrow>
                    Inr (lit ''Task '' @ [0x22] @ ts @ [0x22, 0x20, 0x2014] @ lit '' status: '' @ ss)))"

definition clickUpLines :: "world \<Rightarrow> exn + jsstring list" where
  \<comment> \<open>The \<open>try\<close> block after the request is sent: await the response, parse it, take
      the first five tasks. A value that is not an array has no usable \<open>slice\<close> and
      \<open>map\<close>: a TypeError. The status of the response is not looked at.\<close>
  "clickUpLines w =
     (case clickup_reply w of
        Inl x \<Rightarrow> Inl x
      | Inr res \<Rightarrow>
          (case payload res of
             Malformed \<Rightarrow> Inl SyntaxError
           | Parsed data \<Rightarrow>
               if data = JNull then Inl TypeError
               else
                 (case orElse (getProp (lit ''tasks'') data) (JArr []) of
                    JArr tasks \<Rightarrow> collect (map taskLine (take 5 tasks))
                  | _ \<Rightarrow> Inl TypeError)))"

definition fetchClickUpContext ::
  "process_env \<Rightarrow> world \<Rightarrow> event list \<Rightarrow> event list \<times> (exn + jsstring list)" where
  "fetchClickUpContext e w tr =
     (if \<not> isSet (env_CLICKUP_TOKEN e) \<or> \<not> isSet (env_CLICKUP_TEAM_ID e) then (tr, Inr [])
      else
        let since = date_now w - 24 * 60 * 60 * 1000;
            url = lit ''https://api.clickup.com/api/v2/team/'' @ strOr (env_CLICKUP_TEAM_ID e) []
                  @ lit ''/task?date_updated_gt='' @ decimal_int since
                  @ lit ''&include_closed=true'';
            tr1 = tr @ [ClickUpGet url (strOr (env_CLICKUP_TOKEN e) [])]
        in case clickUpLines w of
             Inl x \<Rightarrow> (tr1 @ [Console Error (lit ''ClickUp fetch error:'') (Some (Thrown x))], Inr [])
           | Inr ls \<Rightarrow> (tr1, Inr ls))"

section \<open>postDailyQuote\<close>

definition fallbacksEN :: "jsstring list" where
  "fallbacksEN =
    [lit ''Small commits, big momentum. Ship something today.'',
     lit ''Readability is a feature. Future you will thank present you.'']"

definition fallbacksMM :: "jsstring list" where
  "fallbacksMM =
    [[0x1014, 0x1031, 0x1037, 0x1010, 0x102D, 0x102F, 0x1004, 0x103A, 0x1038, 0x1021,
      0x1014, 0x100A, 0x103A, 0x1038, 0x1004, 0x101A, 0x103A, 0x1010, 0x102D, 0x102F,
      0x1038, 0x1010, 0x1000, 0x103A, 0x1015, 0x102B, 0x2014, 0x1021, 0x1006, 0x102F,
      0x1036, 0x1038, 0x1019, 0x103E, 0x102C, 0x1000, 0x103C, 0x102E, 0x1038, 0x1019,
      0x102C, 0x1038, 0x1010, 0x1032, 0x1037, 0x1021, 0x1019, 0x103E, 0x1010, 0x103A,
      0x1010, 0x1036, 0x1006, 0x102D, 0x1015, 0x103A, 0x1016, 0x103C, 0x1005, 0x103A,
      0x1019, 0x101A, 0x103A, 0x104B],
     [0x1005, 0x102D, 0x1010, 0x103A, 0x101B, 0x103E, 0x100A, 0x103A, 0x1015, 0x103C,
      0x102E, 0x1038, 0x0020, 0x1000, 0x102F, 0x1012, 0x103A, 0x1000, 0x102D, 0x102F,
      0x0020, 0x101E, 0x1014, 0x1037, 0x103A, 0x101B, 0x103E, 0x1004, 0x103A, 0x1038,
      0x0020, 0x1005, 0x102C, 0x101C, 0x102F, 0x1036, 0x1038, 0x1016, 0x1010, 0x103A,
      0x101B, 0x101C, 0x103D, 0x101A, 0x103A, 0x1021, 0x1031, 0x102C, 0x1004, 0x103A,
      0x0020, 0x101B, 0x1031, 0x1038, 0x1015, 0x102B, 0x2014, 0x1014, 0x1031, 0x102C,
      0x1004, 0x103A, 0x1010, 0x1001, 0x103B, 0x102D, 0x1014, 0x103A, 0x1000, 0x0020,
      0x101E, 0x1004, 0x103A, 0x1037, 0x1000, 0x102D, 0x102F, 0x101A, 0x103A, 0x1010,
      0x102D, 0x102F, 0x1004, 0x103A, 0x1015, 0x1032, 0x0020, 0x1000, 0x103B, 0x1031,
      0x1038, 0x1007, 0x1030, 0x1038, 0x1010, 0x1004, 0x103A, 0x1019, 0x101A, 0x103A,
      0x104B]]"

definition header :: jsstring where
  \<comment> \<open>The sun is the surrogate pair D83C DF1E.\<close>
  "header = [0xD83C, 0xDF1E] @ lit '' **Daily Dev Motivation**''"

definition quoteText :: "process_env \<Rightarrow> jsstring option \<Rightarrow> jsstring" where
  \<comment> \<open>\<open>let text = quote; if (!text) ...\<close>: null and the empty string are falsy.\<close>
  "quoteText e quote =
     (if isSet quote then strOr quote []
      else if LANGUAGE e = lit ''MM'' then fallbacksMM ! 0
      else if LANGUAGE e = lit ''EN_MM'' then fallbacksEN ! 0 @ [0x0A] @ fallbacksMM ! 0
      else fallbacksEN ! 0)"

definition payloadText :: "jsstring \<Rightarrow> jsstring" where
  "payloadText text = header @ [0x0A] @ text"

definition dispatch ::
  "process_env \<Rightarrow> world \<Rightarrow> jsstring \<Rightarrow> event list \<Rightarrow> event list \<times> (exn + unit)" where
  \<comment> \<open>The rest of postDailyQuote from \<open>if (USE_WEBHOOK)\<close> on. The webhook call sits
      in a \<open>try\<close>; the channel lookup and the send do not.\<close>
  "dispatch e w message tr =
     (if USE_WEBHOOK e then
        (let tr1 = tr @ [WebhookPost (strOr (env_DISCORD_WEBHOOK_URL e) [])
                           (JObj [(lit ''content'', JStr message)])]
         in case webhook_reply w of
              Inl x \<Rightarrow> (tr1 @ [Console Error (lit ''Webhook send failed:'') (Some (Thrown x))], Inr ())
            | Inr res \<Rightarrow> (tr1 @ [Console Info (lit ''Sent daily quote via Discord Webhook.'') None], Inr ()))
      else
        (let tr1 = tr @ [ChannelFetch (env_DISCORD_CHANNEL_ID e)] in
         case channel_reply w of
           Inl x \<Rightarrow> (tr1, Inl x)
         | Inr channel \<Rightarrow>
             if channel = None \<or> channel \<noteq> Some GuildText then
               (tr1 @ [Console Error (lit ''Channel not found or not a GuildText channel.'') None], Inr ())
             else
               (let tr2 = tr1 @ [ChannelSend message] in
                case send_reply w of
                  Some x \<Rightarrow> (tr2, Inl x)
                | None \<Rightarrow> (tr2 @ [Console Info (lit ''Sent daily quote.'') None], Inr ()))))"

definition postDailyQuote :: "process_env \<Rightarrow> world \<Rightarrow> event list \<times> (exn + unit)" where
  "postDailyQuote e w =
     (case fetchClickUpContext e w [] of
        (tr1, Inl x) \<Rightarrow> (tr1, Inl x)
      | (tr1, Inr ctx) \<Rightarrow>
          (case generateQuote e w ctx tr1 of
             (tr2, Inl x) \<Rightarrow> (tr2, Inl x)
           | (tr2, Inr quote) \<Rightarrow> dispatch e w (payloadText (quoteText e quote)) tr2))"

section \<open>Reading a trace\<close>

fun posted :: "event \<Rightarrow> chat_request option" where
  "posted (GenerationPost r) = Some r"
| "posted ev = None"

fun delayed :: "event \<Rightarrow> nat option" where
  "delayed (Delay ms) = Some ms"
| "delayed ev = None"

definition posts :: "event list \<Rightarrow> chat_request list" where
  "posts tr = List.map_filter posted tr"

definition delays :: "event list \<Rightarrow> nat list" where
  "delays tr = List.map_filter delayed tr"

definition retry_round :: "process_env \<Rightarrow> jsstring \<Rightarrow> nat \<Rightarrow> event list" where
  "retry_round e prompt attempt =
     [GenerationPost (request e prompt),
      Console Warn (lit ''Rate limited (429). Retrying in '' @ decimal (600 * (attempt + 1))
                    @ lit ''ms...'') None,
      Delay (600 * (attempt + 1))]"

section \<open>Concrete environments and worlds\<close>

definition unset_env :: process_env where
  "unset_env =
     \<lparr> env_DISCORD_CHANNEL_ID = None, env_AI_MODEL = None, env_AI_API_URL = None,
       env_AI_API_KEY = None, env_LANGUAGE = None, env_DISCORD_WEBHOOK_URL = None,
       env_AI_MAX_TOKENS = None, env_AI_TEMPERATURE = None, env_CLICKUP_TOKEN = None,
       env_CLICKUP_TEAM_ID = None \<rparr>"

definition offline_world :: world where
  "offline_world =
     \<lparr> date_now = 1793600000000, clickup_reply = Inl FetchFailed,
       generation_reply = (\<lambda>i. Inl FetchFailed), webhook_reply = Inl FetchFailed,
       channel_reply = Inl DiscordAPIError, send_reply = Some DiscordAPIError \<rparr>"

definition completion :: "jsstring \<Rightarrow> response" where
  "completion text =
     \<lparr> status = 200,
       payload = Parsed (JObj [(lit ''choices'',
                   JArr [JObj [(lit ''message'', JObj [(lit ''content'', JStr text)])]])]) \<rparr>"

definition throttled_world :: world where
  \<comment> \<open>Two answers 429, then a completion.\<close>
  "throttled_world =
     offline_world \<lparr> generation_reply :=
       (\<lambda>i. if i < 2 then Inr \<lparr> status = 429, payload = Malformed \<rparr>
            else Inr (completion (lit '' <s>Ship it.  ''))) \<rparr>"

section \<open>A predicate for the proofs\<close>

definition angle_token :: "jsstring \<Rightarrow> bool" where
  \<comment> \<open>The shape all sentinels share: an opening angle bracket first, a closing one last,
      neither in between. Used in the proofs only.\<close>
  "angle_token t \<longleftrightarrow>
     2 \<le> length t \<and> hd t = 0x3C \<and> last t = 0x3E
     \<and> 0x3C \<notin> set (tl t) \<and> 0x3E \<notin> set (butlast t)"

section \<open>The context line as the specification words it\<close>

definition contextLine :: "jsstring \<Rightarrow> jsstring \<Rightarrow> jsstring" where
  \<comment> \<open>Task "title" (em dash) status: status\<close>
  "contextLine title st =
     lit ''Task '' @ [0x22] @ title @ [0x22, 0x20, 0x2014] @ lit '' status: '' @ st"

fun plainTask :: "json \<Rightarrow> bool" where
  \<comment> \<open>A task as the task API sends it: an object whose name, if it has one, is a
      string, and whose status, if it has one, is an object whose status, if it has one,
      is a string.\<close>
  "plainTask (JObj kvs) =
     ((case map_of kvs (lit ''name'') of None \<Rightarrow> True | Some (JStr s) \<Rightarrow> True | Some v \<Rightarrow> False)
      \<and> (case map_of kvs (lit ''status'') of
            None \<Rightarrow> True
          | Some (JObj st) \<Rightarrow>
              (case map_of st (lit ''status'') of
                 None \<Rightarrow> True | Some (JStr s) \<Rightarrow> True | Some v \<Rightarrow> False)
          | Some v \<Rightarrow> False))"
| "plainTask t = False"

definition taskTitle :: "json \<Rightarrow> jsstring" where
  \<comment> \<open>The title of a plain task, Untitled when it has none (or an empty one).\<close>
  "taskTitle t =
     (case getProp (lit ''name'') t of
        Some (JStr s) \<Rightarrow> if s = [] then lit ''Untitled'' else s
      | _ \<Rightarrow> lit ''Untitled'')"

definition taskStatus :: "json \<Rightarrow> jsstring" where
  \<comment> \<open>The status of a plain task, unknown when it has none (or an empty one).\<close>
  "taskStatus t =
     (case getProp (lit ''status'') t of
        Some st \<Rightarrow>
          (case getProp (lit ''status'') st of
             Some (JStr s) \<Rightarrow> if s = [] then lit ''unknown'' else s
           | _ \<Rightarrow> lit ''unknown'')
      | None \<Rightarrow> lit ''unknown'')"

definition clickup_env :: process_env where
  "clickup_env =
     unset_env \<lparr> env_CLICKUP_TOKEN := Some (lit ''pk_1''), env_CLICKUP_TEAM_ID := Some (lit ''9'') \<rparr>"

definition tasks_body :: "json list \<Rightarrow> parsed" where
  "tasks_body ts = Parsed (JObj [(lit ''tasks'', JArr ts)])"

definition named_task :: "jsstring \<Rightarrow> json" where
  "named_task n = JObj [(lit ''name'', JStr n)]"

section \<open>Reading the deliveries of a trace\<close>

fun isDelivery :: "event \<Rightarrow> bool" where
  \<comment> \<open>The calls of the dispatcher: the webhook request, the channel lookup, the send.\<close>
  "isDelivery (WebhookPost url body) = True"
| "isDelivery (ChannelFetch channelId) = True"
| "isDelivery (ChannelSend message) = True"
| "isDelivery ev = False"

fun isErrorLog :: "event \<Rightarrow> bool" where
  \<comment> \<open>A call of \<open>console.error\<close>.\<close>
  "isErrorLog (Console Error message arg) = True"
| "isErrorLog ev = False"

definition hook_url :: jsstring where
  "hook_url = lit ''https://discord.test/api/webhooks/1/t''"

definition hook_env :: process_env where
  "hook_env = unset_env \<lparr> env_DISCORD_WEBHOOK_URL := Some hook_url \<rparr>"

definition bot_env :: process_env where
  "bot_env = unset_env \<lparr> env_DISCORD_CHANNEL_ID := Some (lit ''123456789012345678'') \<rparr>"

section \<open>The context block as the claim words it\<close>

definition contextBlock :: "jsstring list \<Rightarrow> jsstring" where
  \<comment> \<open>Nothing for no lines; otherwise the line Context: and then each context line on a
      line of its own, after a dash and a space.\<close>
  "contextBlock contextLines =
     (if contextLines = [] then []
      else lit ''Context:\<newline>'' @ concat (map (\<lambda>l. lit ''- '' @ l @ [0x0A]) contextLines))"

section \<open>An answer whose content is not a string\<close>

definition content_parts_reply :: response where
  \<comment> \<open>A completion whose message content is an array of content parts.\<close>
  "content_parts_reply =
     \<lparr> status = 200,
       payload = Parsed (JObj [(lit ''choices'',
                   JArr [JObj [(lit ''message'',
                     JObj [(lit ''content'',
                       JArr [JObj [(lit ''type'', JStr (lit ''text'')),
                                   (lit ''text'', JStr (lit ''Ship it.''))]])])]])]) \<rparr>"

definition content_parts_world :: world where
  "content_parts_world = offline_world \<lparr> generation_reply := (\<lambda>i. Inr content_parts_reply) \<rparr>"
section \<open>Facts about the sanitiser\<close>

lemma tokens_angle: "t \<in> set tokens \<Longrightarrow> angle_token t"
  by (auto simp: tokens_def lit_def angle_token_def)

lemma angle_nonempty: "angle_token t \<Longrightarrow> t \<noteq> []"
  by (auto simp: angle_token_def)

lemma angle_first: "angle_token t \<Longrightarrow> t ! 0 = 0x3C"
  by (cases t) (auto simp: angle_token_def)

lemma angle_last: "angle_token t \<Longrightarrow> t ! (length t - 1) = 0x3E"
  by (cases t rule: rev_cases) (auto simp: angle_token_def nth_append)

lemma angle_open_only_first:
  assumes "angle_token t" "i < length t" "t ! i = 0x3C"
  shows "i = 0"
proof (rule ccontr)
  assume "i \<noteq> 0"
  then obtain k where k: "i = Suc k" by (cases i) auto
  from assms(1) obtain c cs where t: "t = c # cs" by (cases t) (auto simp: angle_token_def)
  with assms(2,3) k have "cs ! k = 0x3C" "k < length cs" by auto
  then have "0x3C \<in> set cs" by (metis nth_mem)
  with assms(1) t show False by (simp add: angle_token_def)
qed

lemma angle_close_only_last:
  assumes "angle_token t" "i < length t" "t ! i = 0x3E"
  shows "i = length t - 1"
proof (rule ccontr)
  assume "i \<noteq> length t - 1"
  with assms(2) have lt: "i < length (butlast t)" by simp
  then have "butlast t ! i = t ! i" by (simp add: nth_butlast)
  with assms(3) lt have "0x3E \<in> set (butlast t)" by (metis nth_mem)
  with assms(1) show False by (simp add: angle_token_def)
qed

lemma occurrence_nth:
  "s = u @ w @ v \<Longrightarrow> i < length w \<Longrightarrow> s ! (length u + i) = w ! i"
  by (simp add: nth_append)

lemma angle_overlap:
  assumes t: "angle_token t" and tj: "angle_token tj"
    and eq: "a @ t @ b = u @ tj @ v"
  shows "length u + length tj \<le> length a \<or> length a + length t \<le> length u
         \<or> (u = a \<and> tj = t \<and> v = b)"
proof -
  define s where "s = a @ t @ b"
  have st: "\<And>i. i < length t \<Longrightarrow> s ! (length a + i) = t ! i"
    by (simp add: s_def nth_append)
  have sj: "\<And>i. i < length tj \<Longrightarrow> s ! (length u + i) = tj ! i"
    by (simp add: s_def eq nth_append)
  have nt: "0 < length t" and nj: "0 < length tj"
    using t tj by (auto simp: angle_token_def)
  show ?thesis
  proof (rule ccontr)
    assume neg: "\<not> ?thesis"
    then have o1: "length a < length u + length tj" and o2: "length u < length a + length t"
      by auto
    consider "length u < length a" | "length a < length u" | "length u = length a"
      by arith
    then show False
    proof cases
      case 1
      define i where "i = length a - length u"
      have i: "0 < i" "i < length tj" "length u + i = length a" using 1 o1 by (auto simp: i_def)
      have "tj ! i = s ! length a" using sj [of i] i by simp
      also have "\<dots> = t ! 0" using st [of 0] nt by simp
      finally have "tj ! i = 0x3C" using angle_first [OF t] by simp
      from angle_open_only_first [OF tj i(2) this] i(1) show False by simp
    next
      case 2
      define i where "i = length u - length a"
      have i: "0 < i" "i < length t" "length a + i = length u" using 2 o2 by (auto simp: i_def)
      have "t ! i = s ! length u" using st [of i] i by simp
      also have "\<dots> = tj ! 0" using sj [of 0] nj by simp
      finally have "t ! i = 0x3C" using angle_first [OF tj] by simp
      from angle_open_only_first [OF t i(2) this] i(1) show False by simp
    next
      case 3
      with eq have ua: "u = a" and rest: "t @ b = tj @ v" by auto
      have "length t = length tj"
      proof (rule ccontr)
        assume ne: "length t \<noteq> length tj"
        consider "length tj < length t" | "length t < length tj" using ne by arith
        then show False
        proof cases
          case 1
          define i where "i = length tj - 1"
          have i: "i < length tj" "i < length t" "i \<noteq> length t - 1"
            using 1 nj unfolding i_def by arith+
          have "t ! i = s ! (length a + i)" using st [of i] i by simp
          also have "\<dots> = tj ! i" using sj [of i] i 3 by simp
          finally have "t ! i = 0x3E" using angle_last [OF tj] by (simp add: i_def)
          from angle_close_only_last [OF t i(2) this] i(3) show False by simp
        next
          case 2
          define i where "i = length t - 1"
          have i: "i < length tj" "i < length t" "i \<noteq> length tj - 1"
            using 2 nt unfolding i_def by arith+
          have "tj ! i = s ! (length a + i)" using sj [of i] i 3 by simp
          also have "\<dots> = t ! i" using st [of i] i by simp
          finally have "tj ! i = 0x3E" using angle_last [OF t] by (simp add: i_def)
          from angle_close_only_last [OF tj i(1) this] i(3) show False by simp
        qed
      qed
      with rest have "tj = t" "v = b" by auto
      with ua neg show False by simp
    qed
  qed
qed

lemma occurrence_left:
  assumes "a @ w = u @ tj @ v" "length u + length tj \<le> length a"
  shows "sublist tj a"
proof -
  define n where "n = length u + length tj"
  have "take n a = take n (a @ w)" using assms(2) by (simp add: n_def)
  also have "\<dots> = take n (u @ tj @ v)" by (simp only: assms(1))
  also have "\<dots> = u @ tj" by (simp add: n_def)
  finally have "take (length u + length tj) a = u @ tj" by (simp add: n_def)
  then have "a = u @ tj @ drop (length u + length tj) a"
    by (metis append_take_drop_id append.assoc)
  then show ?thesis unfolding sublist_def by blast
qed

lemma occurrence_right:
  assumes "w @ b = u @ tj @ v" "length w \<le> length u"
  shows "sublist tj b"
proof -
  from assms have "drop (length w) (w @ b) = drop (length w) u @ tj @ v" by simp
  then have "b = drop (length w) u @ tj @ v" by simp
  then show ?thesis unfolding sublist_def by blast
qed

lemma sublist_left_part: "sublist t a \<Longrightarrow> sublist t (a @ b)"
  unfolding sublist_def by (metis append.assoc)

lemma sublist_right_part: "sublist t b \<Longrightarrow> sublist t (a @ b)"
  unfolding sublist_def by (metis append.assoc)

lemma other_token_absent:
  assumes t: "angle_token t" and tj: "angle_token tj" and ne: "tj \<noteq> t"
    and free: "\<not> sublist tj (a @ b)"
  shows "\<not> sublist tj (a @ t @ b)"
proof
  assume "sublist tj (a @ t @ b)"
  then obtain u v where eq: "a @ t @ b = u @ tj @ v" unfolding sublist_def by blast
  from angle_overlap [OF t tj eq] ne
  consider "length u + length tj \<le> length a" | "length a + length t \<le> length u" by blast
  then show False
  proof cases
    case 1
    from occurrence_left [OF eq 1] have "sublist tj a" .
    then have "sublist tj (a @ b)" by (rule sublist_left_part)
    with free show False by simp
  next
    case 2
    have "(a @ t) @ b = u @ tj @ v" using eq by simp
    from occurrence_right [OF this] 2 have "sublist tj b" by simp
    then have "sublist tj (a @ b)" by (rule sublist_right_part)
    with free show False by simp
  qed
qed


lemma indexOf_None_iff: "indexOf t s = None \<longleftrightarrow> \<not> sublist t s"
  by (induction s) (auto simp: sublist_Cons_right)

lemma arr_join_empty_sep: "arr_join [] ps = concat ps"
  by (induction "[] :: jsstring" ps rule: arr_join.induct) auto

lemma strip_token_absent: "t \<noteq> [] \<Longrightarrow> \<not> sublist t s \<Longrightarrow> strip_token t s = s"
  by (simp add: strip_token_def str_split.simps [of t s] indexOf_None_iff [symmetric])

lemma own_token_not_earlier:
  assumes t: "angle_token t" and free: "\<not> sublist t (a @ b)" and a: "a \<noteq> []"
  shows "\<not> prefix t (a @ t @ b)"
proof
  assume "prefix t (a @ t @ b)"
  then obtain v where eq: "a @ t @ b = [] @ t @ v" by (auto simp: prefix_def)
  from angle_overlap [OF t t eq] a have "length t \<le> length a" by auto
  with occurrence_left [of a "t @ b" "[]" t v] eq have "sublist t a" by simp
  then have "sublist t (a @ b)" by (rule sublist_left_part)
  with free show False by simp
qed

lemma indexOf_own_token:
  assumes t: "angle_token t"
  shows "\<not> sublist t (a @ b) \<Longrightarrow> indexOf t (a @ t @ b) = Some (length a)"
proof (induction a)
  case Nil
  from t obtain c cs where tc: "t = c # cs" by (cases t) (auto simp: angle_token_def)
  have "prefix t (t @ b)" by simp
  then show ?case by (simp add: tc)
next
  case (Cons x a)
  have "\<not> sublist t (a @ b)" using Cons.prems by (auto simp: sublist_Cons_right)
  then have ih: "indexOf t (a @ t @ b) = Some (length a)" by (rule Cons.IH)
  have "\<not> prefix t ((x # a) @ t @ b)"
    by (rule own_token_not_earlier [OF t Cons.prems]) simp
  then show ?case using ih by simp
qed

lemma strip_token_own:
  assumes t: "angle_token t" and free: "\<not> sublist t (a @ b)"
  shows "strip_token t (a @ t @ b) = a @ b"
proof -
  have ne: "t \<noteq> []" using t by (rule angle_nonempty)
  have "\<not> sublist t b" using free sublist_right_part by blast
  then have b: "str_split t b = [b]"
    using ne by (simp add: str_split.simps [of t b] indexOf_None_iff [symmetric])
  have "str_split t (a @ t @ b) = a # str_split t b"
    using ne indexOf_own_token [OF t free] by (simp add: str_split.simps [of t "a @ t @ b"])
  with b show ?thesis by (simp add: strip_token_def)
qed

lemma fold_strip_absent:
  "\<forall>u \<in> set ts. u \<noteq> [] \<and> \<not> sublist u s \<Longrightarrow> fold strip_token ts s = s"
  by (induction ts) (simp_all add: strip_token_absent)

lemma fold_strip_one_token:
  assumes t: "angle_token t" and free: "\<forall>u \<in> set ts \<union> {t}. angle_token u \<and> \<not> sublist u (a @ b)"
  shows "fold strip_token ts (a @ t @ b) = (if t \<in> set ts then a @ b else a @ t @ b)"
  using free
proof (induction ts)
  case Nil
  then show ?case by simp
next
  case (Cons u ts)
  show ?case
  proof (cases "u = t")
    case True
    have "fold strip_token ts (a @ b) = a @ b"
      using Cons.prems by (intro fold_strip_absent) (auto dest: angle_nonempty)
    with True show ?thesis using strip_token_own [OF t] Cons.prems by simp
  next
    case False
    have u: "angle_token u" "\<not> sublist u (a @ b)" using Cons.prems by auto
    have "strip_token u (a @ t @ b) = a @ t @ b"
      using other_token_absent [OF t u(1) False u(2)] angle_nonempty [OF u(1)]
      by (rule_tac strip_token_absent)
    with False Cons show ?thesis by simp
  qed
qed

lemma remove_substring_absent: "indexOf t s = None \<Longrightarrow> remove_substring t s = s"
proof (induction s)
  case Nil
  then show ?case by (simp add: remove_substring.simps [of t "[]"])
next
  case (Cons c cs)
  then show ?case
    by (simp add: remove_substring.simps [of t "c # cs"] split: if_splits)
qed

lemma remove_substring_first:
  "t \<noteq> [] \<Longrightarrow> indexOf t s = Some j \<Longrightarrow>
   remove_substring t s = take j s @ remove_substring t (drop (j + length t) s)"
proof (induction s arbitrary: j)
  case Nil
  then show ?case by simp
next
  case (Cons c cs)
  show ?case
  proof (cases "prefix t (c # cs)")
    case True
    with Cons.prems have "j = 0" by simp
    with True Cons.prems show ?thesis by (simp add: remove_substring.simps [of t "c # cs"])
  next
    case False
    with Cons.prems obtain k where k: "indexOf t cs = Some k" "j = Suc k" by auto
    from Cons.IH [OF Cons.prems(1) k(1)] False Cons.prems(1) k(2)
    show ?thesis by (simp add: remove_substring.simps [of t "c # cs"])
  qed
qed

lemma strip_token_removes: "t \<noteq> [] \<Longrightarrow> strip_token t s = remove_substring t s"
proof (induction t s rule: str_split.induct)
  case (1 sep s)
  show ?case
  proof (cases "indexOf sep s")
    case None
    then show ?thesis using 1(2)
      by (simp add: strip_token_def str_split.simps [of sep s] remove_substring_absent)
  next
    case (Some j)
    from 1(1) [OF 1(2) Some] 1(2)
    have "strip_token sep (drop (j + length sep) s) = remove_substring sep (drop (j + length sep) s)"
      by simp
    then show ?thesis using 1(2) Some remove_substring_first [OF 1(2) Some]
      by (simp add: strip_token_def str_split.simps [of sep s] arr_join_empty_sep)
  qed
qed

lemma fold_strip_removes:
  "\<forall>u \<in> set ts. u \<noteq> [] \<Longrightarrow> fold strip_token ts s = fold remove_substring ts s"
  by (induction ts arbitrary: s) (simp_all add: strip_token_removes)

lemma cleaned_removes: "cleaned raw = str_trim (fold remove_substring tokens raw)"
proof -
  have "\<forall>u \<in> set tokens. u \<noteq> []" using tokens_angle angle_nonempty by blast
  then show ?thesis by (simp add: cleaned_def fold_strip_removes)
qed

text \<open>
  C4. Post-processing removes each sentinel of the list, in the list's order, by literal
  substring removal (the \<open>split\<close>/\<open>join\<close> of the source is the left-to-right
  deletion of \<open>remove_substring\<close>) and then trims white space. For a payload made of
  one sentinel \<open>t\<close> between texts \<open>a\<close> and \<open>b\<close>, where the text \<open>a @ b\<close>
  itself holds no sentinel, the result is \<open>a @ b\<close>, verbatim, trimmed.
\<close>

theorem cleaned_strips_sentinels:
  assumes "t \<in> set tokens" and "\<forall>u \<in> set tokens. \<not> sublist u (a @ b)"
  shows "cleaned raw = str_trim (fold remove_substring tokens raw)
         \<and> cleaned (a @ t @ b) = str_trim (a @ b)"
proof -
  have ne: "\<forall>u \<in> set tokens. u \<noteq> []" using tokens_angle angle_nonempty by blast
  have "fold strip_token tokens (a @ t @ b) = (if t \<in> set tokens then a @ b else a @ t @ b)"
    using assms tokens_angle by (intro fold_strip_one_token) auto
  with assms(1) show ?thesis by (simp add: cleaned_def fold_strip_removes [OF ne])
qed

theorem cleaned_strips_sentinels_witness:
  "cleaned (lit '' <s>Ship <|im_end|>it.  '') = str_trim (lit ''Ship it.'')
   \<and> cleaned (lit '' Ship<|im_end|> it.  '') = lit ''Ship it.''"
  using cleaned_strips_sentinels [of "lit ''<|im_end|>''" "lit '' Ship''" "lit '' it.  ''"
      "lit '' <s>Ship <|im_end|>it.  ''"]
  by (simp add: tokens_def lit_def str_trim_def isWhiteSpace_def remove_substring.simps
      sublist_code)
section \<open>Facts about the retry loop\<close>

lemma posts_append [simp]: "posts (xs @ ys) = posts xs @ posts ys"
  by (simp add: posts_def List.map_filter_def)

lemma delays_append [simp]: "delays (xs @ ys) = delays xs @ delays ys"
  by (simp add: delays_def List.map_filter_def)

lemma posts_simps [simp]:
  "posts [] = []"
  "posts (GenerationPost r # tr) = r # posts tr"
  "posts (Console l m a # tr) = posts tr"
  "posts (Delay ms # tr) = posts tr"
  by (simp_all add: posts_def List.map_filter_def)

lemma delays_simps [simp]:
  "delays [] = []"
  "delays (GenerationPost r # tr) = delays tr"
  "delays (Console l m a # tr) = delays tr"
  "delays (Delay ms # tr) = ms # delays tr"
  by (simp_all add: delays_def List.map_filter_def)

lemma too_many_not_ok: "status res = 429 \<Longrightarrow> \<not> ok res"
  by (simp add: ok_def)

lemma loop_exhausted:
  "\<not> attempt < 3 \<Longrightarrow>
   generateQuote_loop e w p lastErr attempt tr =
     (tr @ [Console Error (lit ''OpenAI error after retries:'') (Some (Value lastErr))], Inr None)"
  by (simp add: generateQuote_loop.simps [of e w p lastErr attempt tr])

lemma loop_rejected:
  "attempt < 3 \<Longrightarrow> generation_reply w attempt = Inl x \<Longrightarrow>
   generateQuote_loop e w p lastErr attempt tr = (tr @ [GenerationPost (request e p)], Inl x)"
  by (simp add: generateQuote_loop.simps [of e w p lastErr attempt tr])

lemma loop_rate_limited:
  "attempt < 3 \<Longrightarrow> generation_reply w attempt = Inr res \<Longrightarrow> status res = 429 \<Longrightarrow>
   generateQuote_loop e w p lastErr attempt tr =
     generateQuote_loop e w p
       (orElse (errorMessage (parsedOrNull res)) (JStr (lit ''HTTP '' @ decimal (status res))))
       (attempt + 1)
       (tr @ [GenerationPost (request e p),
              Console Warn (lit ''Rate limited (429). Retrying in '' @ decimal (600 * (attempt + 1))
                            @ lit ''ms...'') None,
              Delay (600 * (attempt + 1))])"
  by (simp add: generateQuote_loop.simps [of e w p lastErr attempt tr] too_many_not_ok Let_def)

lemma loop_refused:
  "attempt < 3 \<Longrightarrow> generation_reply w attempt = Inr res \<Longrightarrow> \<not> ok res \<Longrightarrow>
   status res \<noteq> 429 \<Longrightarrow>
   generateQuote_loop e w p lastErr attempt tr =
     (tr @ [GenerationPost (request e p),
            Console Error (lit ''OpenAI error:'')
              (Some (Value (orElse (errorMessage (parsedOrNull res))
                              (JStr (lit ''HTTP '' @ decimal (status res))))))],
      Inr None)"
  by (simp add: generateQuote_loop.simps [of e w p lastErr attempt tr] Let_def)

lemma loop_success:
  "attempt < 3 \<Longrightarrow> generation_reply w attempt = Inr res \<Longrightarrow> ok res \<Longrightarrow>
   orElse (choiceContent (parsedOrNull res)) (JStr []) = JStr raw \<Longrightarrow>
   generateQuote_loop e w p lastErr attempt tr =
     (tr @ [GenerationPost (request e p)], Inr (Some (cleaned raw)))"
  by (simp add: generateQuote_loop.simps [of e w p lastErr attempt tr] Let_def)

lemma loop_not_text:
  assumes "attempt < 3" "generation_reply w attempt = Inr res" "ok res"
    and "\<forall>raw. orElse (choiceContent (parsedOrNull res)) (JStr []) \<noteq> JStr raw"
  shows "generateQuote_loop e w p lastErr attempt tr =
     (tr @ [GenerationPost (request e p)], Inl TypeError)"
  using assms
  by (cases "orElse (choiceContent (parsedOrNull res)) (JStr [])")
    (simp_all add: generateQuote_loop.simps [of e w p lastErr attempt tr] Let_def)

lemma loop_posts:
  "generateQuote_loop e w p lastErr attempt tr = (tr', r) \<Longrightarrow>
   \<exists>n. n \<le> 3 - attempt \<and> posts tr' = posts tr @ replicate n (request e p)"
proof (induction e w p lastErr attempt tr rule: generateQuote_loop.induct)
  case (1 e w p lastErr attempt tr)
  show ?case
  proof (cases "attempt < 3")
    case False
    with "1.prems" have "posts tr' = posts tr" by (auto simp: loop_exhausted)
    then show ?thesis by (intro exI [of _ 0]) simp
  next
    case lt: True
    show ?thesis
    proof (cases "generation_reply w attempt")
      case (Inl x)
      with lt "1.prems" have "posts tr' = posts tr @ replicate 1 (request e p)"
        by (auto simp: loop_rejected)
      with lt show ?thesis by (intro exI [of _ 1]) simp
    next
      case (Inr res)
      show ?thesis
      proof (cases "ok res")
        case True
        with lt Inr "1.prems" have "posts tr' = posts tr @ replicate 1 (request e p)"
          by (auto simp: generateQuote_loop.simps [of e w p lastErr attempt tr] Let_def
              split: json.splits)
        with lt show ?thesis by (intro exI [of _ 1]) simp
      next
        case nok: False
        show ?thesis
        proof (cases "status res = 429")
          case False
          with lt Inr nok "1.prems" have "posts tr' = posts tr @ replicate 1 (request e p)"
            by (auto simp: loop_refused)
          with lt show ?thesis by (intro exI [of _ 1]) simp
        next
          case True
          from "1.prems" have
            "generateQuote_loop e w p
               (orElse (errorMessage (parsedOrNull res)) (JStr (lit ''HTTP '' @ decimal (status res))))
               (attempt + 1)
               ((tr @ [GenerationPost (request e p)]) @
                 [Console Warn (lit ''Rate limited (429). Retrying in '' @ decimal (600 * (attempt + 1))
                            @ lit ''ms...'') None,
                  Delay (600 * (attempt + 1))]) = (tr', r)"
            by (simp add: loop_rate_limited [OF lt Inr True])
          from "1.IH" [OF lt refl Inr refl nok refl True refl this]
          obtain n where n: "n \<le> 3 - (attempt + 1)"
            "posts tr' = posts tr @ replicate (Suc n) (request e p)"
            by (auto simp: replicate_append_same)
          with lt show ?thesis by (intro exI [of _ "Suc n"]) auto
        qed
      qed
    qed
  qed
qed


lemma loop_trace_extends:
  "generateQuote_loop e w p lastErr attempt tr = (tr', r) \<Longrightarrow> \<exists>rest. tr' = tr @ rest"
proof (induction e w p lastErr attempt tr rule: generateQuote_loop.induct)
  case (1 e w p lastErr attempt tr)
  show ?case
  proof (cases "attempt < 3 \<and> (\<exists>res. generation_reply w attempt = Inr res \<and> status res = 429)")
    case True
    then obtain res where lt: "attempt < 3" and res: "generation_reply w attempt = Inr res"
      and st: "status res = 429" by auto
    have nok: "\<not> ok res" using st by (rule too_many_not_ok)
    from "1.prems" have
      "generateQuote_loop e w p
         (orElse (errorMessage (parsedOrNull res)) (JStr (lit ''HTTP '' @ decimal (status res))))
         (attempt + 1)
         ((tr @ [GenerationPost (request e p)]) @
           [Console Warn (lit ''Rate limited (429). Retrying in '' @ decimal (600 * (attempt + 1))
                      @ lit ''ms...'') None,
            Delay (600 * (attempt + 1))]) = (tr', r)"
      by (simp add: loop_rate_limited [OF lt res st])
    from "1.IH" [OF lt refl res refl nok refl st refl this] show ?thesis by auto
  next
    case False
    with "1.prems" show ?thesis
      by (auto simp: generateQuote_loop.simps [of e w p lastErr attempt tr] Let_def
          split: if_splits sum.splits json.splits)
  qed
qed

lemma loop_rounds:
  "(\<forall>i. a \<le> i \<and> i < a + k \<longrightarrow> (\<exists>res. generation_reply w i = Inr res \<and> status res = 429)) \<Longrightarrow>
   a + k \<le> 3 \<Longrightarrow>
   \<exists>lastErr'. generateQuote_loop e w p lastErr a tr =
     generateQuote_loop e w p lastErr' (a + k) (tr @ concat (map (retry_round e p) [a..<a + k]))"
proof (induction k arbitrary: a tr lastErr)
  case 0
  then show ?case by auto
next
  case (Suc k)
  from Suc.prems obtain res where res: "generation_reply w a = Inr res" "status res = 429"
    by force
  have lt: "a < 3" using Suc.prems by simp
  have "\<forall>i. a + 1 \<le> i \<and> i < a + 1 + k \<longrightarrow> (\<exists>res. generation_reply w i = Inr res \<and> status res = 429)"
    using Suc.prems by simp
  moreover have "a + 1 + k \<le> 3" using Suc.prems by simp
  ultimately obtain l where l:
    "generateQuote_loop e w p
       (orElse (errorMessage (parsedOrNull res)) (JStr (lit ''HTTP '' @ decimal (status res))))
       (a + 1) (tr @ retry_round e p a) =
     generateQuote_loop e w p l (a + 1 + k)
       ((tr @ retry_round e p a) @ concat (map (retry_round e p) [a + 1..<a + 1 + k]))"
    using Suc.IH by blast
  have "[a..<a + Suc k] = a # [a + 1..<a + 1 + k]" by (simp add: upt_conv_Cons)
  then have "generateQuote_loop e w p lastErr a tr =
     generateQuote_loop e w p l (a + Suc k) (tr @ concat (map (retry_round e p) [a..<a + Suc k]))"
    using loop_rate_limited [OF lt res, of e p lastErr tr] l by (simp add: retry_round_def)
  then show ?case by blast
qed

lemma posts_rounds: "posts (concat (map (retry_round e p) xs)) = replicate (length xs) (request e p)"
  by (induction xs) (simp_all add: retry_round_def)

text \<open>
  C1, as the code has it. Whatever the generation endpoint answers, a run of
  generateQuote posts at most three requests, all of them the same request for the prompt
  of the context lines. If the first \<open>k\<close> answers have status 429, the trace starts
  with \<open>k\<close> rounds, round \<open>i\<close> being the request, the warning and a wait of
  \<open>600 * (i + 1)\<close> ms. After three such rounds the result is null and nothing more is
  posted. If answer \<open>k < 3\<close> is any other failure, one more request is posted and the
  result is null. If answer \<open>k < 3\<close> is a success, one more request is posted; the
  result is the cleaned content when the content of the first choice is a string (or is
  missing or falsy, read as the empty string), and it is null, with the TypeError caught
  and logged, when that content is any other value.
\<close>

theorem generateQuote_retry:
  assumes k: "k \<le> 3"
    and limited: "\<forall>i<k. \<exists>res. generation_reply w i = Inr res \<and> status res = 429"
    and run: "generateQuote e w contextLines [] = (tr, r)"
  shows "length (posts tr) \<le> 3
     \<and> set (posts tr) \<subseteq> {request e (buildPrompt contextLines)}
     \<and> (\<exists>rest. tr = concat (map (retry_round e (buildPrompt contextLines)) [0..<k]) @ rest
          \<and> (k = 3 \<longrightarrow> r = Inr None \<and> posts rest = [] \<and> delays rest = [])
          \<and> (\<forall>res. k < 3 \<and> generation_reply w k = Inr res \<and> \<not> ok res \<and> status res \<noteq> 429
                \<longrightarrow> r = Inr None \<and> posts rest = [request e (buildPrompt contextLines)]
                    \<and> delays rest = [])
          \<and> (\<forall>res raw. k < 3 \<and> generation_reply w k = Inr res \<and> ok res
                  \<and> orElse (choiceContent (parsedOrNull res)) (JStr []) = JStr raw
                \<longrightarrow> r = Inr (Some (cleaned raw))
                    \<and> rest = [GenerationPost (request e (buildPrompt contextLines))])
          \<and> (\<forall>res. k < 3 \<and> generation_reply w k = Inr res \<and> ok res
                  \<and> (\<forall>raw. orElse (choiceContent (parsedOrNull res)) (JStr []) \<noteq> JStr raw)
                \<longrightarrow> r = Inr None
                    \<and> rest = [GenerationPost (request e (buildPrompt contextLines)),
                               Console Error (lit ''AI error:'') (Some (Thrown TypeError))]))"
proof -
  define p where "p = buildPrompt contextLines"
  obtain tr0 r0 where loop: "generateQuote_loop e w p (JStr []) 0 [] = (tr0, r0)"
    by (cases "generateQuote_loop e w p (JStr []) 0 []") auto
  from loop_posts [OF loop] obtain n where n: "n \<le> 3" "posts tr0 = replicate n (request e p)"
    by auto
  have tr: "posts tr = posts tr0"
    using run loop by (cases r0) (auto simp: generateQuote_def p_def [symmetric])
  have bound: "length (posts tr) \<le> 3" and same: "set (posts tr) \<subseteq> {request e p}"
    using n tr by auto
  from loop_rounds [of 0 k w e p "JStr []" "[]"] k limited
  obtain l where l: "generateQuote_loop e w p (JStr []) 0 [] =
      generateQuote_loop e w p l k (concat (map (retry_round e p) [0..<k]))"
    by auto
  define rounds where "rounds = concat (map (retry_round e p) [0..<k])"
  have "\<exists>rest. tr = rounds @ rest
          \<and> (k = 3 \<longrightarrow> r = Inr None \<and> posts rest = [] \<and> delays rest = [])
          \<and> (\<forall>res. k < 3 \<and> generation_reply w k = Inr res \<and> \<not> ok res \<and> status res \<noteq> 429
                \<longrightarrow> r = Inr None \<and> posts rest = [request e p] \<and> delays rest = [])
          \<and> (\<forall>res raw. k < 3 \<and> generation_reply w k = Inr res \<and> ok res
                  \<and> orElse (choiceContent (parsedOrNull res)) (JStr []) = JStr raw
                \<longrightarrow> r = Inr (Some (cleaned raw)) \<and> rest = [GenerationPost (request e p)])
          \<and> (\<forall>res. k < 3 \<and> generation_reply w k = Inr res \<and> ok res
                  \<and> (\<forall>raw. orElse (choiceContent (parsedOrNull res)) (JStr []) \<noteq> JStr raw)
                \<longrightarrow> r = Inr None
                    \<and> rest = [GenerationPost (request e p),
                               Console Error (lit ''AI error:'') (Some (Thrown TypeError))])"
  proof (cases "k < 3")
    case False
    with k have k3: "k = 3" by simp
    have "generateQuote_loop e w p l k rounds =
        (rounds @ [Console Error (lit ''OpenAI error after retries:'') (Some (Value l))], Inr None)"
      using False by (rule loop_exhausted)
    with run l have "tr = rounds @ [Console Error (lit ''OpenAI error after retries:'') (Some (Value l))]"
      "r = Inr None"
      by (auto simp: generateQuote_def p_def [symmetric] rounds_def [symmetric])
    with k3 show ?thesis by auto
  next
    case lt: True
    show ?thesis
    proof (cases "generation_reply w k")
      case (Inl x)
      have "generateQuote_loop e w p l k rounds = (rounds @ [GenerationPost (request e p)], Inl x)"
        using lt Inl by (rule loop_rejected)
      with run l have "tr = rounds @ [GenerationPost (request e p), Console Error (lit ''AI error:'') (Some (Thrown x))]"
        by (auto simp: generateQuote_def p_def [symmetric] rounds_def [symmetric])
      with lt Inl show ?thesis by auto
    next
      case (Inr res)
      show ?thesis
      proof (cases "ok res")
        case True
        show ?thesis
        proof (cases "\<exists>raw. orElse (choiceContent (parsedOrNull res)) (JStr []) = JStr raw")
          case True
          then obtain raw where raw: "orElse (choiceContent (parsedOrNull res)) (JStr []) = JStr raw" ..
          have "generateQuote_loop e w p l k rounds =
              (rounds @ [GenerationPost (request e p)], Inr (Some (cleaned raw)))"
            using lt Inr \<open>ok res\<close> raw by (rule loop_success)
          with run l have "tr = rounds @ [GenerationPost (request e p)]" "r = Inr (Some (cleaned raw))"
            by (auto simp: generateQuote_def p_def [symmetric] rounds_def [symmetric])
          with lt Inr \<open>ok res\<close> raw show ?thesis by auto
        next
          case False
          then have no: "\<forall>raw. orElse (choiceContent (parsedOrNull res)) (JStr []) \<noteq> JStr raw"
            by simp
          have "generateQuote_loop e w p l k rounds
              = (rounds @ [GenerationPost (request e p)], Inl TypeError)"
            using lt Inr \<open>ok res\<close> no by (rule loop_not_text)
          with run l have "tr = rounds @ [GenerationPost (request e p),
                Console Error (lit ''AI error:'') (Some (Thrown TypeError))]" "r = Inr None"
            by (auto simp: generateQuote_def p_def [symmetric] rounds_def [symmetric])
          with lt Inr \<open>ok res\<close> no show ?thesis by auto
        qed
      next
        case nok: False
        show ?thesis
        proof (cases "status res = 429")
          case True
          have "generateQuote_loop e w p l k rounds =
             generateQuote_loop e w p
       (orElse (errorMessage (parsedOrNull res)) (JStr (lit ''HTTP '' @ decimal (status res))))
       (k + 1) (rounds @ retry_round e p k)"
            using loop_rate_limited [OF lt Inr True, of e p l rounds] by (simp add: retry_round_def)
          moreover obtain trx rx where x: "generateQuote_loop e w p
       (orElse (errorMessage (parsedOrNull res)) (JStr (lit ''HTTP '' @ decimal (status res))))
       (k + 1) (rounds @ retry_round e p k) = (trx, rx)"
            using prod.exhaust by blast
          moreover have "\<exists>rest. trx = rounds @ rest"
            using loop_trace_extends [OF x] by auto
          ultimately have "\<exists>rest. tr = rounds @ rest" using run l
            by (cases rx) (auto simp: generateQuote_def p_def [symmetric] rounds_def [symmetric])
          with lt Inr nok True show ?thesis by auto
        next
          case False
          have "generateQuote_loop e w p l k rounds =
     (rounds @ [GenerationPost (request e p),
            Console Error (lit ''OpenAI error:'')
              (Some (Value (orElse (errorMessage (parsedOrNull res))
                              (JStr (lit ''HTTP '' @ decimal (status res))))))],
      Inr None)"
            using lt Inr nok False by (rule loop_refused)
          with run l have "tr = rounds @ [GenerationPost (request e p),
            Console Error (lit ''OpenAI error:'')
              (Some (Value (orElse (errorMessage (parsedOrNull res))
                              (JStr (lit ''HTTP '' @ decimal (status res))))))]" "r = Inr None"
            by (auto simp: generateQuote_def p_def [symmetric] rounds_def [symmetric])
          with lt Inr nok False show ?thesis by auto
        qed
      qed
    qed
  qed
  with bound same show ?thesis by (simp add: p_def rounds_def)
qed


theorem generateQuote_retry_witness:
  "snd (generateQuote unset_env throttled_world [] []) = Inr (Some (lit ''Ship it.''))
   \<and> length (posts (fst (generateQuote unset_env throttled_world [] []))) = 3
   \<and> delays (fst (generateQuote unset_env throttled_world [] [])) = [600, 1200]"
proof -
  have two: "\<And>i::nat. i < 2 \<longleftrightarrow> i = 0 \<or> i = 1" by auto
  have raw: "orElse (choiceContent (parsedOrNull (completion (lit '' <s>Ship it.  '')))) (JStr [])
      = JStr (lit '' <s>Ship it.  '')"
    by (simp add: completion_def parsedOrNull_def choiceContent_def optChain_def orElse_def lit_def)
  have cl: "cleaned (lit '' <s>Ship it.  '') = lit ''Ship it.''"
    by (simp add: cleaned_removes tokens_def lit_def str_trim_def isWhiteSpace_def
        remove_substring.simps)
  have ok: "ok (completion (lit '' <s>Ship it.  ''))" by (simp add: ok_def completion_def)
  have upt: "[0..<2] = [0, Suc 0]" by (simp add: upt_conv_Cons)
  show ?thesis
    using generateQuote_retry [of 2 throttled_world unset_env "[]"
        "fst (generateQuote unset_env throttled_world [] [])"
        "snd (generateQuote unset_env throttled_world [] [])"] raw cl ok
    by (auto simp: throttled_world_def two upt retry_round_def)
qed

theorem success_not_text_counterexample:
  "ok content_parts_reply
   \<and> generation_reply content_parts_world 0 = Inr content_parts_reply
   \<and> choiceContent (parsedOrNull content_parts_reply)
       = Some (JArr [JObj [(lit ''type'', JStr (lit ''text'')), (lit ''text'', JStr (lit ''Ship it.''))]])
   \<and> generateQuote unset_env content_parts_world [] []
       = ([GenerationPost (request unset_env (buildPrompt [])),
           Console Error (lit ''AI error:'') (Some (Thrown TypeError))],
          Inr None)"
proof -
  have c: "choiceContent (parsedOrNull content_parts_reply)
       = Some (JArr [JObj [(lit ''type'', JStr (lit ''text'')), (lit ''text'', JStr (lit ''Ship it.''))]])"
    by (simp add: content_parts_reply_def parsedOrNull_def choiceContent_def optChain_def lit_def)
  have o: "ok content_parts_reply" by (simp add: ok_def content_parts_reply_def)
  have g: "generation_reply content_parts_world 0 = Inr content_parts_reply"
    by (simp add: content_parts_world_def)
  have "generateQuote_loop unset_env content_parts_world (buildPrompt []) (JStr []) 0 []
      = ([] @ [GenerationPost (request unset_env (buildPrompt []))], Inl TypeError)"
  proof (rule loop_not_text [OF _ g o])
    show "(0::nat) < 3" by simp
    show "\<forall>raw. orElse (choiceContent (parsedOrNull content_parts_reply)) (JStr []) \<noteq> JStr raw"
      by (simp add: c orElse_def)
  qed
  then have "generateQuote unset_env content_parts_world [] []
       = ([GenerationPost (request unset_env (buildPrompt [])),
           Console Error (lit ''AI error:'') (Some (Thrown TypeError))],
          Inr None)"
    by (simp add: generateQuote_def)
  with c o g show ?thesis by blast
qed
section \<open>Facts about failures of generation\<close>

lemma generateQuote_returns:
  "\<exists>tr' quote. generateQuote e w contextLines tr = (tr', Inr quote)"
  by (cases "generateQuote_loop e w (buildPrompt contextLines) (JStr []) 0 tr")
    (auto simp: generateQuote_def split: sum.splits)

lemma fetchClickUpContext_returns:
  "\<exists>tr' ls. fetchClickUpContext e w tr = (tr', Inr ls)"
  by (auto simp: fetchClickUpContext_def Let_def split: sum.splits)

lemma cleaned_empty: "cleaned [] = []"
  by (simp add: cleaned_removes tokens_def lit_def str_trim_def remove_substring.simps)

lemma malformed_content:
  "payload res = Malformed \<Longrightarrow> orElse (choiceContent (parsedOrNull res)) (JStr []) = JStr []"
  by (simp add: parsedOrNull_def choiceContent_def optChain_def orElse_def)

lemma postDailyQuote_dispatches:
  "fetchClickUpContext e w [] = (tr1, Inr ctx) \<Longrightarrow> generateQuote e w ctx tr1 = (tr2, Inr quote) \<Longrightarrow>
   postDailyQuote e w = dispatch e w (payloadText (quoteText e quote)) tr2"
  by (simp add: postDailyQuote_def)

lemma quoteText_falsy:
  "quote = None \<or> quote = Some [] \<Longrightarrow>
   quoteText e quote =
     (if LANGUAGE e = lit ''MM'' then fallbacksMM ! 0
      else if LANGUAGE e = lit ''EN_MM'' then fallbacksEN ! 0 @ [0x0A] @ fallbacksMM ! 0
      else fallbacksEN ! 0)"
  by (auto simp: quoteText_def isSet_def)

text \<open>
  C2. For every list of context lines and every behaviour of the generation endpoint,
  generateQuote returns and does not throw: its result is a string or null. A rejected
  request gives null, an answer that is neither a success nor a 429 gives null, and a
  success whose body does not parse gives the empty string. In the pipeline the context
  fetch and the generation both return, and postDailyQuote goes on to dispatch the
  message made of the quote; when the quote is null (or the empty string) the text of that
  message is the fallback text of the language.
\<close>

theorem generateQuote_never_raises:
  "(\<exists>tr' quote. generateQuote e w contextLines tr = (tr', Inr quote))
   \<and> (\<forall>x. generation_reply w 0 = Inl x \<longrightarrow> snd (generateQuote e w contextLines tr) = Inr None)
   \<and> (\<forall>res. generation_reply w 0 = Inr res \<and> \<not> ok res \<and> status res \<noteq> 429
         \<longrightarrow> snd (generateQuote e w contextLines tr) = Inr None)
   \<and> (\<forall>res. generation_reply w 0 = Inr res \<and> ok res \<and> payload res = Malformed
         \<longrightarrow> snd (generateQuote e w contextLines tr) = Inr (Some []))
   \<and> (\<exists>tr1 ctx tr2 quote.
         fetchClickUpContext e w [] = (tr1, Inr ctx)
         \<and> generateQuote e w ctx tr1 = (tr2, Inr quote)
         \<and> postDailyQuote e w = dispatch e w (payloadText (quoteText e quote)) tr2
         \<and> (quote = None \<or> quote = Some [] \<longrightarrow>
              quoteText e quote =
                (if LANGUAGE e = lit ''MM'' then fallbacksMM ! 0
                 else if LANGUAGE e = lit ''EN_MM'' then fallbacksEN ! 0 @ [0x0A] @ fallbacksMM ! 0
                 else fallbacksEN ! 0)))"
proof -
  have a: "\<exists>tr' quote. generateQuote e w contextLines tr = (tr', Inr quote)"
    by (rule generateQuote_returns)
  have b: "snd (generateQuote e w contextLines tr) = Inr None" if "generation_reply w 0 = Inl x" for x
    using that by (simp add: generateQuote_def loop_rejected)
  have c: "snd (generateQuote e w contextLines tr) = Inr None"
    if "generation_reply w 0 = Inr res" "\<not> ok res" "status res \<noteq> 429" for res
    using that by (simp add: generateQuote_def loop_refused)
  have d: "snd (generateQuote e w contextLines tr) = Inr (Some [])"
    if "generation_reply w 0 = Inr res" "ok res" "payload res = Malformed" for res
    using that loop_success [of 0 w res "[]" e "buildPrompt contextLines" "JStr []" tr]
    by (simp add: generateQuote_def malformed_content cleaned_empty)
  obtain tr1 ctx where f: "fetchClickUpContext e w [] = (tr1, Inr ctx)"
    using fetchClickUpContext_returns by blast
  obtain tr2 quote where g: "generateQuote e w ctx tr1 = (tr2, Inr quote)"
    using generateQuote_returns by blast
  have "postDailyQuote e w = dispatch e w (payloadText (quoteText e quote)) tr2"
    using f g by (rule postDailyQuote_dispatches)
  with f g quoteText_falsy [of quote e]
  have e: "\<exists>tr1 ctx tr2 quote.
         fetchClickUpContext e w [] = (tr1, Inr ctx)
         \<and> generateQuote e w ctx tr1 = (tr2, Inr quote)
         \<and> postDailyQuote e w = dispatch e w (payloadText (quoteText e quote)) tr2
         \<and> (quote = None \<or> quote = Some [] \<longrightarrow>
              quoteText e quote =
                (if LANGUAGE e = lit ''MM'' then fallbacksMM ! 0
                 else if LANGUAGE e = lit ''EN_MM'' then fallbacksEN ! 0 @ [0x0A] @ fallbacksMM ! 0
                 else fallbacksEN ! 0))"
    by blast
  from a b c d e show ?thesis by blast
qed

theorem generateQuote_never_raises_witness:
  "snd (generateQuote unset_env offline_world [lit ''Task one''] []) = Inr None
   \<and> snd (generateQuote unset_env
            (offline_world \<lparr> generation_reply := (\<lambda>i. Inr \<lparr> status = 500, payload = Malformed \<rparr>) \<rparr>)
            [] []) = Inr None
   \<and> snd (generateQuote unset_env
            (offline_world \<lparr> generation_reply := (\<lambda>i. Inr \<lparr> status = 200, payload = Malformed \<rparr>) \<rparr>)
            [] []) = Inr (Some [])"
  using generateQuote_never_raises [of unset_env offline_world "[lit ''Task one'']" "[]"]
    generateQuote_never_raises [of unset_env
      "offline_world \<lparr> generation_reply := (\<lambda>i. Inr \<lparr> status = 500, payload = Malformed \<rparr>) \<rparr>" "[]" "[]"]
    generateQuote_never_raises [of unset_env
      "offline_world \<lparr> generation_reply := (\<lambda>i. Inr \<lparr> status = 200, payload = Malformed \<rparr>) \<rparr>" "[]" "[]"]
  by (simp add: offline_world_def ok_def)
section \<open>Facts about the fallback text\<close>

lemma LANGUAGE_literals:
  "lit ''EN'' \<noteq> lit ''MM''" "lit ''EN'' \<noteq> lit ''EN_MM''" "lit ''EN_MM'' \<noteq> lit ''MM''"
  by (simp_all add: lit_def)

text \<open>
  C3, as the code has it. Whenever generation yields no result (null, or the empty
  string), the text of the message is a function of the language code alone: MM gives
  Burmese line 1, EN_MM gives English line 1, a line break and Burmese line 1, any other
  value, EN included, gives English line 1. The language code is the variable LANGUAGE
  when it is set and EN_MM when it is unset: the default is not EN. With the language EN
  the message handed to the dispatcher is the header, a line break and English line 1.
\<close>

theorem fallback_by_language:
  assumes "quote = None \<or> quote = Some []"
  shows "quoteText e quote =
           (if LANGUAGE e = lit ''MM'' then fallbacksMM ! 0
            else if LANGUAGE e = lit ''EN_MM'' then fallbacksEN ! 0 @ [0x0A] @ fallbacksMM ! 0
            else fallbacksEN ! 0)
     \<and> LANGUAGE e = (case env_LANGUAGE e of None \<Rightarrow> lit ''EN_MM'' | Some v \<Rightarrow> v)
     \<and> (LANGUAGE e = lit ''EN'' \<longrightarrow>
          payloadText (quoteText e quote) = header @ [0x0A] @ fallbacksEN ! 0)
     \<and> (\<forall>w tr1 ctx tr2.
          fetchClickUpContext e w [] = (tr1, Inr ctx) \<and> generateQuote e w ctx tr1 = (tr2, Inr quote)
          \<longrightarrow> postDailyQuote e w = dispatch e w (header @ [0x0A] @ quoteText e quote) tr2)"
proof -
  have "quoteText e quote =
           (if LANGUAGE e = lit ''MM'' then fallbacksMM ! 0
            else if LANGUAGE e = lit ''EN_MM'' then fallbacksEN ! 0 @ [0x0A] @ fallbacksMM ! 0
            else fallbacksEN ! 0)"
    using assms by (rule quoteText_falsy)
  moreover have "LANGUAGE e = (case env_LANGUAGE e of None \<Rightarrow> lit ''EN_MM'' | Some v \<Rightarrow> v)"
    by (simp add: LANGUAGE_def)
  moreover have "postDailyQuote e w = dispatch e w (header @ [0x0A] @ quoteText e quote) tr2"
    if "fetchClickUpContext e w [] = (tr1, Inr ctx)" "generateQuote e w ctx tr1 = (tr2, Inr quote)"
    for w tr1 ctx tr2
    using postDailyQuote_dispatches [OF that] by (simp add: payloadText_def)
  ultimately show ?thesis by (simp add: payloadText_def LANGUAGE_literals)
qed

theorem fallback_by_language_witness:
  "payloadText (quoteText (unset_env \<lparr> env_LANGUAGE := Some (lit ''EN'') \<rparr>) None)
     = [0xD83C, 0xDF1E] @ lit '' **Daily Dev Motivation**'' @ [0x0A]
       @ lit ''Small commits, big momentum. Ship something today.''
   \<and> quoteText (unset_env \<lparr> env_LANGUAGE := Some (lit ''MM'') \<rparr>) (Some []) = fallbacksMM ! 0"
proof -
  have en: "LANGUAGE (unset_env \<lparr> env_LANGUAGE := Some (lit ''EN'') \<rparr>) = lit ''EN''"
    and mm: "LANGUAGE (unset_env \<lparr> env_LANGUAGE := Some (lit ''MM'') \<rparr>) = lit ''MM''"
    by (simp_all add: LANGUAGE_def)
  have "payloadText (quoteText (unset_env \<lparr> env_LANGUAGE := Some (lit ''EN'') \<rparr>) None)
      = header @ [0x0A] @ fallbacksEN ! 0"
    using fallback_by_language [of None "unset_env \<lparr> env_LANGUAGE := Some (lit ''EN'') \<rparr>"] en
    by blast
  moreover have "quoteText (unset_env \<lparr> env_LANGUAGE := Some (lit ''MM'') \<rparr>) (Some []) = fallbacksMM ! 0"
    using fallback_by_language [of "Some []" "unset_env \<lparr> env_LANGUAGE := Some (lit ''MM'') \<rparr>"] mm
    by simp
  ultimately show ?thesis by (simp add: header_def fallbacksEN_def)
qed

theorem fallback_default_counterexample:
  "env_LANGUAGE unset_env = None
   \<and> LANGUAGE unset_env = lit ''EN_MM''
   \<and> quoteText unset_env None = fallbacksEN ! 0 @ [0x0A] @ fallbacksMM ! 0
   \<and> quoteText unset_env None \<noteq> fallbacksEN ! 0"
  by (simp add: unset_env_def LANGUAGE_def quoteText_def isSet_def LANGUAGE_literals)
section \<open>Facts about the context fetcher\<close>

lemma collect_length: "collect rs = Inr vs \<Longrightarrow> length vs = length rs"
proof (induction rs arbitrary: vs)
  case Nil
  then show ?case by simp
next
  case (Cons r rs)
  then show ?case by (cases r) (auto split: sum.splits)
qed

lemma collect_map_Inr: "\<forall>x \<in> set xs. f x = Inr (g x) \<Longrightarrow> collect (map f xs) = Inr (map g xs)"
  by (induction xs) simp_all

lemma title_plain:
  assumes "plainTask (JObj kvs)"
  shows "orElse (getProp (lit ''name'') (JObj kvs)) (JStr (lit ''Untitled''))
         = JStr (taskTitle (JObj kvs))"
proof (cases "map_of kvs (lit ''name'')")
  case None
  then show ?thesis by (simp add: orElse_def taskTitle_def)
next
  case (Some v)
  with assms obtain s where "v = JStr s" by (cases v) auto
  with Some show ?thesis by (simp add: orElse_def taskTitle_def)
qed

lemma status_plain:
  assumes "plainTask (JObj kvs)"
  shows "orElse (optChain (getProp (lit ''status'')) (getProp (lit ''status'') (JObj kvs)))
           (JStr (lit ''unknown''))
         = JStr (taskStatus (JObj kvs))"
proof (cases "map_of kvs (lit ''status'')")
  case None
  then show ?thesis by (simp add: orElse_def optChain_def taskStatus_def)
next
  case (Some v)
  with assms obtain st where v: "v = JObj st" by (cases v) auto
  show ?thesis
  proof (cases "map_of st (lit ''status'')")
    case None
    with Some v show ?thesis by (simp add: orElse_def optChain_def taskStatus_def)
  next
    case inner: (Some u)
    with assms Some v obtain s where "u = JStr s" by (cases u) auto
    with Some v inner show ?thesis by (simp add: orElse_def optChain_def taskStatus_def)
  qed
qed

lemma taskLine_plain:
  assumes "plainTask t"
  shows "taskLine t = Inr (contextLine (taskTitle t) (taskStatus t))"
proof -
  from assms obtain kvs where t: "t = JObj kvs" by (cases t) auto
  have "taskLine (JObj kvs) = Inr (contextLine (taskTitle (JObj kvs)) (taskStatus (JObj kvs)))"
    unfolding taskLine_def Let_def
    using title_plain [OF assms [unfolded t]] status_plain [OF assms [unfolded t]]
    by (simp add: contextLine_def)
  with t show ?thesis by simp
qed

lemma clickUpLines_short:
  assumes "clickUpLines w = Inr ls"
  shows "length ls \<le> 5"
proof (cases "clickup_reply w")
  case (Inl x)
  with assms show ?thesis by (simp add: clickUpLines_def)
next
  case (Inr res)
  show ?thesis
  proof (cases "payload res")
    case Malformed
    with Inr assms show ?thesis by (simp add: clickUpLines_def)
  next
    case (Parsed data)
    show ?thesis
    proof (cases "orElse (getProp (lit ''tasks'') data) (JArr [])")
      case (JArr tasks)
      with Inr Parsed assms have "collect (map taskLine (take 5 tasks)) = Inr ls"
        by (simp add: clickUpLines_def split: if_splits)
      from collect_length [OF this] show ?thesis by simp
    qed (use Inr Parsed assms in \<open>simp_all add: clickUpLines_def split: if_splits\<close>)
  qed
qed

lemma clickUpLines_no_array:
  assumes "clickup_reply w = Inr res" "payload res = Parsed data"
    "\<forall>ts. getProp (lit ''tasks'') data \<noteq> Some (JArr ts)"
  shows "clickUpLines w = Inl TypeError \<or> clickUpLines w = Inr []"
proof (cases "getProp (lit ''tasks'') data")
  case None
  with assms(1,2) show ?thesis by (simp add: clickUpLines_def orElse_def)
next
  case (Some v)
  with assms(3) have "\<forall>ts. v \<noteq> JArr ts" by simp
  with Some assms(1,2) show ?thesis
    by (cases v) (simp_all add: clickUpLines_def orElse_def)
qed

lemma clickUpLines_plain:
  assumes "clickup_reply w = Inr res" "payload res = Parsed data"
    "getProp (lit ''tasks'') data = Some (JArr ts)" "list_all plainTask (take 5 ts)"
  shows "clickUpLines w = Inr (map (\<lambda>t. contextLine (taskTitle t) (taskStatus t)) (take 5 ts))"
proof -
  have "data \<noteq> JNull" using assms(3) by auto
  moreover have "collect (map taskLine (take 5 ts))
      = Inr (map (\<lambda>t. contextLine (taskTitle t) (taskStatus t)) (take 5 ts))"
    using assms(4) by (intro collect_map_Inr) (simp add: list_all_iff taskLine_plain)
  ultimately show ?thesis using assms(1-3) by (simp add: clickUpLines_def orElse_def)
qed

lemma clickUpLines_status:
  "clickup_reply w = Inr res \<Longrightarrow>
   clickUpLines (w \<lparr> clickup_reply := Inr (res \<lparr> status := s \<rparr>) \<rparr>) = clickUpLines w"
  by (simp add: clickUpLines_def)

lemma fetch_result:
  "snd (fetchClickUpContext e w tr) =
     (if \<not> isSet (env_CLICKUP_TOKEN e) \<or> \<not> isSet (env_CLICKUP_TEAM_ID e) then Inr []
      else case clickUpLines w of Inl x \<Rightarrow> Inr [] | Inr ls \<Rightarrow> Inr ls)"
  by (simp add: fetchClickUpContext_def Let_def split: sum.splits)

text \<open>
  C5, as the code has it. fetchClickUpContext returns and does not throw, and its result
  has at most five lines. The result is empty when a credential is missing (and then
  nothing is requested), when the request is rejected, when the body does not parse and
  when the parsed body holds no array under tasks. The status of the response is not
  looked at: the result is the same whatever the status. With both credentials set and a
  body whose first five tasks are plain, the result is the line of each of the first five
  tasks, in their order: Task, the title in quotes (Untitled when missing), an em dash,
  status: and the status (unknown when missing).
\<close>

theorem fetchClickUpContext_lines:
  "(\<exists>tr' ls. fetchClickUpContext e w tr = (tr', Inr ls) \<and> length ls \<le> 5)
   \<and> (\<not> isSet (env_CLICKUP_TOKEN e) \<or> \<not> isSet (env_CLICKUP_TEAM_ID e)
        \<longrightarrow> fetchClickUpContext e w tr = (tr, Inr []))
   \<and> (\<forall>x. clickup_reply w = Inl x \<longrightarrow> snd (fetchClickUpContext e w tr) = Inr [])
   \<and> (\<forall>res. clickup_reply w = Inr res \<and> payload res = Malformed
        \<longrightarrow> snd (fetchClickUpContext e w tr) = Inr [])
   \<and> (\<forall>res data. clickup_reply w = Inr res \<and> payload res = Parsed data
          \<and> (\<forall>ts. getProp (lit ''tasks'') data \<noteq> Some (JArr ts))
        \<longrightarrow> snd (fetchClickUpContext e w tr) = Inr [])
   \<and> (\<forall>res s. clickup_reply w = Inr res
        \<longrightarrow> snd (fetchClickUpContext e (w \<lparr> clickup_reply := Inr (res \<lparr> status := s \<rparr>) \<rparr>) tr)
            = snd (fetchClickUpContext e w tr))
   \<and> (\<forall>res data ts. isSet (env_CLICKUP_TOKEN e) \<and> isSet (env_CLICKUP_TEAM_ID e)
          \<and> clickup_reply w = Inr res \<and> payload res = Parsed data
          \<and> getProp (lit ''tasks'') data = Some (JArr ts) \<and> list_all plainTask (take 5 ts)
        \<longrightarrow> snd (fetchClickUpContext e w tr)
            = Inr (map (\<lambda>t. contextLine (taskTitle t) (taskStatus t)) (take 5 ts)))"
proof -
  have a: "\<exists>tr' ls. fetchClickUpContext e w tr = (tr', Inr ls) \<and> length ls \<le> 5"
    by (auto simp: fetchClickUpContext_def Let_def clickUpLines_short split: sum.splits)
  have b: "fetchClickUpContext e w tr = (tr, Inr [])"
    if "\<not> isSet (env_CLICKUP_TOKEN e) \<or> \<not> isSet (env_CLICKUP_TEAM_ID e)"
    using that by (auto simp: fetchClickUpContext_def)
  have c: "snd (fetchClickUpContext e w tr) = Inr []" if "clickup_reply w = Inl x" for x
    using that by (simp add: fetch_result clickUpLines_def)
  have d: "snd (fetchClickUpContext e w tr) = Inr []"
    if "clickup_reply w = Inr res" "payload res = Malformed" for res
    using that by (simp add: fetch_result clickUpLines_def)
  have f: "snd (fetchClickUpContext e w tr) = Inr []"
    if "clickup_reply w = Inr res" "payload res = Parsed data"
      "\<forall>ts. getProp (lit ''tasks'') data \<noteq> Some (JArr ts)" for res data
    using clickUpLines_no_array [OF that] by (auto simp: fetch_result)
  have g: "snd (fetchClickUpContext e (w \<lparr> clickup_reply := Inr (res \<lparr> status := s \<rparr>) \<rparr>) tr)
            = snd (fetchClickUpContext e w tr)"
    if "clickup_reply w = Inr res" for res s
    using clickUpLines_status [OF that] by (simp add: fetch_result)
  have h: "snd (fetchClickUpContext e w tr)
            = Inr (map (\<lambda>t. contextLine (taskTitle t) (taskStatus t)) (take 5 ts))"
    if "isSet (env_CLICKUP_TOKEN e)" "isSet (env_CLICKUP_TEAM_ID e)"
      "clickup_reply w = Inr res" "payload res = Parsed data"
      "getProp (lit ''tasks'') data = Some (JArr ts)" "list_all plainTask (take 5 ts)"
    for res data ts
    using clickUpLines_plain [OF that(3-6)] that(1,2) by (simp add: fetch_result)
  from a b c d f g h show ?thesis by blast
qed

theorem fetchClickUpContext_lines_witness:
  "snd (fetchClickUpContext unset_env offline_world []) = Inr []
   \<and> snd (fetchClickUpContext clickup_env offline_world []) = Inr []
   \<and> snd (fetchClickUpContext clickup_env
            (offline_world \<lparr> clickup_reply := Inr \<lparr> status = 200, payload = Malformed \<rparr> \<rparr>) [])
       = Inr []
   \<and> snd (fetchClickUpContext clickup_env
            (offline_world \<lparr> clickup_reply := Inr \<lparr> status = 200,
               payload = tasks_body [named_task (lit ''a''), JObj [], named_task (lit ''c''),
                 named_task (lit ''d''), named_task (lit ''e''), named_task (lit ''f'')] \<rparr> \<rparr>) [])
       = Inr [contextLine (lit ''a'') (lit ''unknown''), contextLine (lit ''Untitled'') (lit ''unknown''),
              contextLine (lit ''c'') (lit ''unknown''), contextLine (lit ''d'') (lit ''unknown''),
              contextLine (lit ''e'') (lit ''unknown'')]"
proof -
  have set: "isSet (env_CLICKUP_TOKEN clickup_env)" "isSet (env_CLICKUP_TEAM_ID clickup_env)"
    "\<not> isSet (env_CLICKUP_TOKEN unset_env)"
    by (simp_all add: clickup_env_def unset_env_def isSet_def lit_def)
  have off: "clickup_reply offline_world = Inl FetchFailed" by (simp add: offline_world_def)
  have 1: "snd (fetchClickUpContext unset_env offline_world []) = Inr []"
    using fetchClickUpContext_lines [of unset_env offline_world "[]"] set by simp
  have 2: "snd (fetchClickUpContext clickup_env offline_world []) = Inr []"
    using fetchClickUpContext_lines [of clickup_env offline_world "[]"] off by blast
  have 3: "snd (fetchClickUpContext clickup_env
            (offline_world \<lparr> clickup_reply := Inr \<lparr> status = 200, payload = Malformed \<rparr> \<rparr>) [])
       = Inr []"
    using fetchClickUpContext_lines [of clickup_env
        "offline_world \<lparr> clickup_reply := Inr \<lparr> status = 200, payload = Malformed \<rparr> \<rparr>" "[]"]
    by simp
  have 4: "snd (fetchClickUpContext clickup_env
            (offline_world \<lparr> clickup_reply := Inr \<lparr> status = 200,
               payload = tasks_body [named_task (lit ''a''), JObj [], named_task (lit ''c''),
                 named_task (lit ''d''), named_task (lit ''e''), named_task (lit ''f'')] \<rparr> \<rparr>) [])
       = Inr [contextLine (lit ''a'') (lit ''unknown''), contextLine (lit ''Untitled'') (lit ''unknown''),
              contextLine (lit ''c'') (lit ''unknown''), contextLine (lit ''d'') (lit ''unknown''),
              contextLine (lit ''e'') (lit ''unknown'')]"
    using fetchClickUpContext_lines [of clickup_env
        "offline_world \<lparr> clickup_reply := Inr \<lparr> status = 200,
               payload = tasks_body [named_task (lit ''a''), JObj [], named_task (lit ''c''),
                 named_task (lit ''d''), named_task (lit ''e''), named_task (lit ''f'')] \<rparr> \<rparr>" "[]"] set
    by (simp add: tasks_body_def named_task_def taskTitle_def taskStatus_def lit_def)
  from 1 2 3 4 show ?thesis by blast
qed

theorem fetchClickUpContext_status_counterexample:
  "\<not> ok \<lparr> status = 500, payload = tasks_body [named_task (lit ''Deploy'')] \<rparr>
   \<and> snd (fetchClickUpContext clickup_env
         (offline_world \<lparr> clickup_reply :=
            Inr \<lparr> status = 500, payload = tasks_body [named_task (lit ''Deploy'')] \<rparr> \<rparr>) [])
     = Inr [contextLine (lit ''Deploy'') (lit ''unknown'')]
   \<and> snd (fetchClickUpContext clickup_env
         (offline_world \<lparr> clickup_reply :=
            Inr \<lparr> status = 500, payload = tasks_body [named_task (lit ''Deploy'')] \<rparr> \<rparr>) [])
     \<noteq> Inr []"
  by (simp add: ok_def fetch_result clickUpLines_def taskLine_def tasks_body_def named_task_def
      clickup_env_def unset_env_def isSet_def orElse_def optChain_def contextLine_def lit_def)
section \<open>Facts about the dispatcher\<close>

lemma loop_deliveries:
  "generateQuote_loop e w p lastErr attempt tr = (tr', r) \<Longrightarrow>
   filter isDelivery tr' = filter isDelivery tr"
proof (induction e w p lastErr attempt tr rule: generateQuote_loop.induct)
  case (1 e w p lastErr attempt tr)
  show ?case
  proof (cases "attempt < 3 \<and> (\<exists>res. generation_reply w attempt = Inr res \<and> status res = 429)")
    case True
    then obtain res where lt: "attempt < 3" and res: "generation_reply w attempt = Inr res"
      and st: "status res = 429" by auto
    have nok: "\<not> ok res" using st by (rule too_many_not_ok)
    from "1.prems" have
      "generateQuote_loop e w p
         (orElse (errorMessage (parsedOrNull res)) (JStr (lit ''HTTP '' @ decimal (status res))))
         (attempt + 1)
         ((tr @ [GenerationPost (request e p)]) @
           [Console Warn (lit ''Rate limited (429). Retrying in '' @ decimal (600 * (attempt + 1))
                      @ lit ''ms...'') None,
            Delay (600 * (attempt + 1))]) = (tr', r)"
      by (simp add: loop_rate_limited [OF lt res st])
    from "1.IH" [OF lt refl res refl nok refl st refl this] show ?thesis by simp
  next
    case False
    with "1.prems" show ?thesis
      by (auto simp: generateQuote_loop.simps [of e w p lastErr attempt tr] Let_def
          split: if_splits sum.splits json.splits)
  qed
qed

lemma generateQuote_deliveries:
  "generateQuote e w contextLines tr = (tr', r) \<Longrightarrow> filter isDelivery tr' = filter isDelivery tr"
  by (cases "generateQuote_loop e w (buildPrompt contextLines) (JStr []) 0 tr")
    (auto simp: generateQuote_def split: sum.splits dest: loop_deliveries)

lemma fetchClickUpContext_deliveries:
  "fetchClickUpContext e w tr = (tr', r) \<Longrightarrow> filter isDelivery tr' = filter isDelivery tr"
  by (auto simp: fetchClickUpContext_def Let_def split: if_splits sum.splits)

lemma dispatch_webhook:
  assumes "env_DISCORD_WEBHOOK_URL e = Some url" "url \<noteq> []"
  shows "dispatch e w message tr =
     (tr @ [WebhookPost url (JObj [(lit ''content'', JStr message)]),
            (case webhook_reply w of
               Inl x \<Rightarrow> Console Error (lit ''Webhook send failed:'') (Some (Thrown x))
             | Inr res \<Rightarrow> Console Info (lit ''Sent daily quote via Discord Webhook.'') None)],
      Inr ())"
  using assms by (simp add: dispatch_def USE_WEBHOOK_def isSet_def strOr_def Let_def split: sum.splits)

text \<open>
  C6. With a webhook URL configured (set and not empty), a run of postDailyQuote makes
  exactly one call of the dispatcher: one POST to that URL, whose body is the object
  with the single field content holding the header, a line break and the text of the
  quote. No channel is looked up and nothing is sent through the client. The run returns
  without throwing.
\<close>

theorem webhook_mode_single_post:
  assumes "env_DISCORD_WEBHOOK_URL e = Some url" and "url \<noteq> []"
  shows "\<exists>tr1 ctx tr2 quote.
           fetchClickUpContext e w [] = (tr1, Inr ctx)
           \<and> generateQuote e w ctx tr1 = (tr2, Inr quote)
           \<and> filter isDelivery (fst (postDailyQuote e w))
               = [WebhookPost url (JObj [(lit ''content'', JStr (header @ [0x0A] @ quoteText e quote))])]
           \<and> snd (postDailyQuote e w) = Inr ()"
proof -
  obtain tr1 ctx where f: "fetchClickUpContext e w [] = (tr1, Inr ctx)"
    using fetchClickUpContext_returns by blast
  obtain tr2 quote where g: "generateQuote e w ctx tr1 = (tr2, Inr quote)"
    using generateQuote_returns by blast
  have none: "filter isDelivery tr2 = []"
    using fetchClickUpContext_deliveries [OF f] generateQuote_deliveries [OF g] by simp
  have "postDailyQuote e w = dispatch e w (payloadText (quoteText e quote)) tr2"
    using f g by (rule postDailyQuote_dispatches)
  then have "filter isDelivery (fst (postDailyQuote e w))
               = [WebhookPost url (JObj [(lit ''content'', JStr (header @ [0x0A] @ quoteText e quote))])]"
    and "snd (postDailyQuote e w) = Inr ()"
    using none by (simp_all add: dispatch_webhook [OF assms] payloadText_def split: sum.splits)
  with f g show ?thesis by blast
qed

lemma offline_generation: "snd (generateQuote e offline_world contextLines tr) = Inr None"
  by (simp add: generateQuote_def loop_rejected offline_world_def)

theorem webhook_mode_single_post_witness:
  "filter isDelivery (fst (postDailyQuote hook_env offline_world))
     = [WebhookPost hook_url
          (JObj [(lit ''content'',
                  JStr (header @ [0x0A] @ fallbacksEN ! 0 @ [0x0A] @ fallbacksMM ! 0))])]
   \<and> snd (postDailyQuote hook_env offline_world) = Inr ()"
proof -
  have url: "env_DISCORD_WEBHOOK_URL hook_env = Some hook_url" "hook_url \<noteq> []"
    by (simp_all add: hook_env_def hook_url_def lit_def)
  from webhook_mode_single_post [OF url, of offline_world]
  obtain tr1 ctx tr2 quote where
    g: "generateQuote hook_env offline_world ctx tr1 = (tr2, Inr quote)"
    and d: "filter isDelivery (fst (postDailyQuote hook_env offline_world))
               = [WebhookPost hook_url
                    (JObj [(lit ''content'', JStr (header @ [0x0A] @ quoteText hook_env quote))])]"
    and r: "snd (postDailyQuote hook_env offline_world) = Inr ()"
    by blast
  from g offline_generation [of hook_env ctx tr1] have "quote = None" by simp
  moreover have "quoteText hook_env None = fallbacksEN ! 0 @ [0x0A] @ fallbacksMM ! 0"
    by (simp add: quoteText_def isSet_def LANGUAGE_def hook_env_def unset_env_def LANGUAGE_literals)
  ultimately show ?thesis using d r by simp
qed
section \<open>Failures of delivery\<close>

lemma dispatch_bot:
  assumes "\<not> isSet (env_DISCORD_WEBHOOK_URL e)"
  shows "dispatch e w message tr =
     (case channel_reply w of
        Inl x \<Rightarrow> (tr @ [ChannelFetch (env_DISCORD_CHANNEL_ID e)], Inl x)
      | Inr channel \<Rightarrow>
          if channel \<noteq> Some GuildText then
            (tr @ [ChannelFetch (env_DISCORD_CHANNEL_ID e),
                   Console Error (lit ''Channel not found or not a GuildText channel.'') None],
             Inr ())
          else
            (case send_reply w of
               Some x \<Rightarrow> (tr @ [ChannelFetch (env_DISCORD_CHANNEL_ID e), ChannelSend message], Inl x)
             | None \<Rightarrow>
                 (tr @ [ChannelFetch (env_DISCORD_CHANNEL_ID e), ChannelSend message,
                        Console Info (lit ''Sent daily quote.'') None],
                  Inr ())))"
  using assms by (auto simp: dispatch_def USE_WEBHOOK_def Let_def split: sum.splits option.splits)

lemma bot_env_mode: "\<not> isSet (env_DISCORD_WEBHOOK_URL bot_env)"
  by (simp add: bot_env_def unset_env_def isSet_def)

lemma hook_env_mode: "env_DISCORD_WEBHOOK_URL hook_env = Some hook_url" "hook_url \<noteq> []"
  by (simp_all add: hook_env_def hook_url_def lit_def)

lemma postDailyQuote_run:
  "\<exists>tr2 quote. postDailyQuote e w = dispatch e w (payloadText (quoteText e quote)) tr2
     \<and> filter isDelivery tr2 = []"
proof -
  obtain tr1 ctx where f: "fetchClickUpContext e w [] = (tr1, Inr ctx)"
    using fetchClickUpContext_returns by blast
  obtain tr2 quote where g: "generateQuote e w ctx tr1 = (tr2, Inr quote)"
    using generateQuote_returns by blast
  have "filter isDelivery tr2 = []"
    using fetchClickUpContext_deliveries [OF f] generateQuote_deliveries [OF g] by simp
  with postDailyQuote_dispatches [OF f g] show ?thesis by blast
qed

text \<open>
  C7 holds where the lookup resolves: to null or to a channel of another type. Then the
  dispatcher logs the error, sends nothing and returns.
\<close>

lemma unusable_channel_is_logged:
  assumes "\<not> isSet (env_DISCORD_WEBHOOK_URL e)" and "channel_reply w = Inr channel"
    and "channel \<noteq> Some GuildText"
  shows "dispatch e w message tr =
     (tr @ [ChannelFetch (env_DISCORD_CHANNEL_ID e),
            Console Error (lit ''Channel not found or not a GuildText channel.'') None],
      Inr ())"
  using assms by (simp add: dispatch_bot)

text \<open>
  C7 fails where the lookup itself fails. \<open>client.channels.fetch\<close> is awaited outside
  any \<open>try\<close>, so when it rejects (an unknown channel id, for one) the rejection leaves
  postDailyQuote: the run throws, and the dispatcher has logged nothing. Here the
  environment is in bot-client mode with a channel id, and the lookup rejects.
\<close>

theorem rejected_channel_lookup_escapes:
  "snd (postDailyQuote bot_env offline_world) = Inl DiscordAPIError
   \<and> (\<exists>tr2. fst (postDailyQuote bot_env offline_world)
              = tr2 @ [ChannelFetch (Some (lit ''123456789012345678''))]
            \<and> filter isDelivery tr2 = [])"
proof -
  obtain tr2 quote where
    p: "postDailyQuote bot_env offline_world
          = dispatch bot_env offline_world (payloadText (quoteText bot_env quote)) tr2"
    and n: "filter isDelivery tr2 = []"
    using postDailyQuote_run by blast
  have ch: "channel_reply offline_world = Inl DiscordAPIError"
    by (simp add: offline_world_def)
  have cid: "env_DISCORD_CHANNEL_ID bot_env = Some (lit ''123456789012345678'')"
    by (simp add: bot_env_def)
  have "dispatch bot_env offline_world (payloadText (quoteText bot_env quote)) tr2
      = (tr2 @ [ChannelFetch (Some (lit ''123456789012345678''))], Inl DiscordAPIError)"
    by (simp add: dispatch_bot [OF bot_env_mode] ch cid)
  with p n show ?thesis by simp
qed

text \<open>
  C8 holds for a rejected webhook request: it is caught and logged with
  \<open>console.error\<close>, once, and the run returns.
\<close>

lemma rejected_webhook_is_logged:
  assumes "env_DISCORD_WEBHOOK_URL e = Some url" and "url \<noteq> []" and "webhook_reply w = Inl x"
  shows "dispatch e w message tr =
     (tr @ [WebhookPost url (JObj [(lit ''content'', JStr message)]),
            Console Error (lit ''Webhook send failed:'') (Some (Thrown x))],
      Inr ())"
  using assms by (simp add: dispatch_webhook)

text \<open>
  C8 fails for an answer with a failure status. \<open>fetch\<close> resolves whatever the status
  and the response is never looked at, so the dispatcher logs that the quote was sent and
  logs no failure. Here the webhook answers 404.
\<close>

theorem refused_webhook_logged_as_sent:
  "\<not> ok \<lparr> status = 404, payload = Malformed \<rparr>
   \<and> dispatch hook_env
        (offline_world \<lparr> webhook_reply := Inr \<lparr> status = 404, payload = Malformed \<rparr> \<rparr>)
        (payloadText (lit ''Ship it.'')) []
     = ([WebhookPost hook_url (JObj [(lit ''content'', JStr (payloadText (lit ''Ship it.'')))]),
         Console Info (lit ''Sent daily quote via Discord Webhook.'') None],
        Inr ())
   \<and> filter isErrorLog
        (fst (dispatch hook_env
               (offline_world \<lparr> webhook_reply := Inr \<lparr> status = 404, payload = Malformed \<rparr> \<rparr>)
               (payloadText (lit ''Ship it.'')) [])) = []"
  by (simp add: dispatch_webhook [OF hook_env_mode] ok_def)
section \<open>Facts about the numeric settings\<close>








section \<open>Facts about the prompt\<close>

lemma dash_lines:
  "contextLines \<noteq> [] \<Longrightarrow>
   lit ''- '' @ arr_join (lit ''\<newline>- '') contextLines @ [0x0A]
     = concat (map (\<lambda>l. lit ''- '' @ l @ [0x0A]) contextLines)"
proof (induction "lit ''\<newline>- ''" contextLines rule: arr_join.induct)
  case 1
  then show ?case by simp
next
  case (2 p)
  then show ?case by simp
next
  case (3 p q ps)
  have "lit ''\<newline>- '' = 0x0A # lit ''- ''" by (simp add: lit_def)
  with 3 show ?case by simp
qed

lemma context_block_joined:
  "contextLines \<noteq> [] \<Longrightarrow>
   lit ''Context:\<newline>- '' @ arr_join (lit ''\<newline>- '') contextLines @ lit ''\<newline>''
     = contextBlock contextLines"
proof -
  assume ne: "contextLines \<noteq> []"
  have "lit ''Context:\<newline>- '' = lit ''Context:\<newline>'' @ lit ''- ''"
    and "lit ''\<newline>'' = [0x0A]"
    by (simp_all add: lit_def)
  with dash_lines [OF ne] ne show ?thesis by (simp add: contextBlock_def)
qed

lemma fixed_text_has_no_context: "\<not> sublist (lit ''Context:'') (prompt_head @ prompt_tail)"
  by (simp add: prompt_head_def prompt_tail_def lit_def sublist_code)

text \<open>
  C10. buildPrompt reads its list of context lines and nothing else: the prompt is the
  fixed opening, the context block of the lines and the fixed requirements, so the same
  list gives the same prompt. The block is the line Context: followed by each context
  line after a dash and a space; it is there exactly when the list is not empty, and with
  the empty list the prompt is the fixed text alone, in which Context: does not occur.
\<close>

theorem buildPrompt_context_block:
  "buildPrompt contextLines = prompt_head @ contextBlock contextLines @ prompt_tail
   \<and> (sublist (lit ''Context:'') (buildPrompt contextLines) \<longleftrightarrow> contextLines \<noteq> [])
   \<and> (contextLines = [] \<longrightarrow> buildPrompt contextLines = prompt_head @ prompt_tail)
   \<and> (contextLines \<noteq> [] \<longrightarrow>
        contextBlock contextLines
          = lit ''Context:\<newline>'' @ concat (map (\<lambda>l. lit ''- '' @ l @ [0x0A]) contextLines))"
proof -
  have shape: "buildPrompt contextLines = prompt_head @ contextBlock contextLines @ prompt_tail"
    by (cases "contextLines = []")
      (simp_all add: buildPrompt_def context_block_joined, simp add: contextBlock_def)
  have "sublist (lit ''Context:'') (buildPrompt contextLines)" if ne: "contextLines \<noteq> []"
  proof -
    have "lit ''Context:\<newline>'' = lit ''Context:'' @ [0x0A]" by (simp add: lit_def)
    with ne have "buildPrompt contextLines
        = prompt_head @ lit ''Context:''
          @ ([0x0A] @ concat (map (\<lambda>l. lit ''- '' @ l @ [0x0A]) contextLines) @ prompt_tail)"
      by (simp add: shape contextBlock_def)
    then show ?thesis unfolding sublist_def by blast
  qed
  moreover have "\<not> sublist (lit ''Context:'') (buildPrompt contextLines)" if "contextLines = []"
  proof -
    have "buildPrompt contextLines = prompt_head @ prompt_tail"
      unfolding shape using that by (simp add: contextBlock_def)
    then show ?thesis using fixed_text_has_no_context by simp
  qed
  ultimately show ?thesis using shape by (auto simp: contextBlock_def)
qed

theorem buildPrompt_context_block_witness:
  "buildPrompt [lit ''Task A'', lit ''Task B'']
     = prompt_head @ lit ''Context:\<newline>- Task A\<newline>- Task B\<newline>'' @ prompt_tail
   \<and> sublist (lit ''Context:'') (buildPrompt [lit ''Task A'', lit ''Task B''])
   \<and> buildPrompt [] = prompt_head @ prompt_tail
   \<and> \<not> sublist (lit ''Context:'') (buildPrompt [])"
proof -
  have block: "contextBlock [lit ''Task A'', lit ''Task B'']
      = lit ''Context:\<newline>- Task A\<newline>- Task B\<newline>''"
    by (simp add: contextBlock_def lit_def)
  have 1: "buildPrompt [lit ''Task A'', lit ''Task B'']
     = prompt_head @ lit ''Context:\<newline>- Task A\<newline>- Task B\<newline>'' @ prompt_tail"
    using buildPrompt_context_block [of "[lit ''Task A'', lit ''Task B'']"] block by simp
  have 2: "sublist (lit ''Context:'') (buildPrompt [lit ''Task A'', lit ''Task B''])"
    using buildPrompt_context_block [of "[lit ''Task A'', lit ''Task B'']"] by blast
  have 3: "buildPrompt [] = prompt_head @ prompt_tail"
    using buildPrompt_context_block [of "[]"] by blast
  have 4: "\<not> sublist (lit ''Context:'') (buildPrompt [])"
    using buildPrompt_context_block [of "[]"] by blast
  from 1 2 3 4 show ?thesis by blast
qed

end
